theory Spec2Isabelle
  imports Main
begin

section \<open>Python values the server works with\<close>

text \<open>
  The server is \<^verbatim>\<open>src/server.py\<close>. Its functions are embedded one by one, with the
  names of the source. A Python \<^verbatim>\<open>str\<close> is a \<open>string\<close>, read as the UTF-8 encoding of
  its code points: the separators \<^verbatim>\<open>:\<close> and \<^verbatim>\<open>/\<close> and every literal of the source are
  ASCII, so splitting, joining and comparing work on the bytes as they do on the code
  points, and only \<^verbatim>\<open>int\<close>, which looks at the code points, decodes. Python's unbounded
  \<open>int\<close> is \<open>int\<close>, every exception the source can raise is a value of \<open>py_error\<close> and a
  function that may raise returns \<open>py_error + 'a\<close> with \<open>Inl\<close> for the exception. Paths
  are POSIX paths: the model of \<open>os.path\<close> follows \<^verbatim>\<open>posixpath\<close>.
\<close>

datatype py_error =
    ValueError
  | IndexError
  | TypeError string
  | OSError string
  | HTTPException nat string

subsection \<open>\<^verbatim>\<open>str.split(sep, 1)\<close>, \<^verbatim>\<open>str.endswith\<close>, \<^verbatim>\<open>str.join\<close>\<close>

definition split_once :: "char \<Rightarrow> string \<Rightarrow> string list" where
  "split_once c s =
     (if c \<in> set s then [takeWhile (\<lambda>x. x \<noteq> c) s, tl (dropWhile (\<lambda>x. x \<noteq> c) s)]
      else [s])"

definition endswith :: "string \<Rightarrow> string \<Rightarrow> bool" where
  "endswith s suffix = (length suffix \<le> length s \<and> drop (length s - length suffix) s = suffix)"

fun str_join :: "string \<Rightarrow> string list \<Rightarrow> string" where
  "str_join s [] = []"
| "str_join s [x] = x"
| "str_join s (x # y # ys) = x @ s @ str_join s (y # ys)"

subsection \<open>\<^verbatim>\<open>int(str)\<close>\<close>

text \<open>
  What \<^verbatim>\<open>int\<close> takes from the interpreter: the decimal digit value of a code point in
  its Unicode database (\<^verbatim>\<open>Py_UNICODE_TODECIMAL\<close>, which grows with the Unicode version),
  and the limit on the number of digits of a string to convert
  (\<^verbatim>\<open>sys.get_int_max_str_digits()\<close>: 4300 unless configured, 0 for no limit and in
  interpreters that have none).
\<close>

record interpreter =
  todecimal :: "nat \<Rightarrow> nat option"
  max_str_digits :: nat

text \<open>The code points of a string: UTF-8 decoded, \<open>None\<close> for bytes that encode nothing.\<close>

definition cont :: "char \<Rightarrow> bool" where
  "cont c = (0x80 \<le> (of_char c :: nat) \<and> (of_char c :: nat) < 0xC0)"

definition tail_bits :: "char \<Rightarrow> nat" where
  "tail_bits c = of_char c - 0x80"

fun utf8_decode :: "string \<Rightarrow> nat list option" where
  "utf8_decode [] = Some []"
| "utf8_decode (c # cs) =
     (let b = (of_char c :: nat) in
      if b < 0x80 then map_option (Cons b) (utf8_decode cs)
      else if b < 0xC2 then None
      else if b < 0xE0 then
        (case cs of
           c1 # r \<Rightarrow>
             if cont c1
             then map_option (Cons ((b - 0xC0) * 64 + tail_bits c1)) (utf8_decode r)
             else None
         | _ \<Rightarrow> None)
      else if b < 0xF0 then
        (case cs of
           c1 # c2 # r \<Rightarrow>
             (let v = (b - 0xE0) * 4096 + tail_bits c1 * 64 + tail_bits c2 in
              if cont c1 \<and> cont c2 \<and> 0x800 \<le> v
              then map_option (Cons v) (utf8_decode r)
              else None)
         | _ \<Rightarrow> None)
      else if b < 0xF5 then
        (case cs of
           c1 # c2 # c3 # r \<Rightarrow>
             (let v = (b - 0xF0) * 262144 + tail_bits c1 * 4096 + tail_bits c2 * 64
                        + tail_bits c3 in
              if cont c1 \<and> cont c2 \<and> cont c3 \<and> 0x10000 \<le> v \<and> v \<le> 0x10FFFF
              then map_option (Cons v) (utf8_decode r)
              else None)
         | _ \<Rightarrow> None)
      else None)"

text \<open>
  \<^verbatim>\<open>int(s)\<close> in base ten, as CPython converts a \<^verbatim>\<open>str\<close>. First every code point from
  127 on is replaced: a Unicode white space by a blank, a decimal digit by its ASCII
  digit, anything else by \<^verbatim>\<open>?\<close> (CPython also cuts the string there; the \<^verbatim>\<open>?\<close> fails
  the conversion either way). Code points below 127 stay, so the separators
  \<^verbatim>\<open>0x1C\<close> to \<^verbatim>\<open>0x1F\<close>, white space for \<^verbatim>\<open>str.isspace\<close>, are none here. Then the ASCII
  white space \<^verbatim>\<open>0x09\<close> to \<^verbatim>\<open>0x0D\<close> and \<^verbatim>\<open>0x20\<close> is dropped at both ends, one sign is
  allowed, and decimal digits follow, where single underscores may stand between two
  digits. Anything else raises \<^verbatim>\<open>ValueError\<close>, and so do more digits than the limit allows
  (checked from 641 digits on).
\<close>

definition ascii_space :: "nat \<Rightarrow> bool" where
  "ascii_space c = (c \<in> {0x09, 0x0A, 0x0B, 0x0C, 0x0D, 0x20})"

definition unicode_space :: "nat \<Rightarrow> bool" where
  "unicode_space c =
     (c \<in> {0x85, 0xA0, 0x1680, 0x2028, 0x2029, 0x202F, 0x205F, 0x3000} \<or>
      (0x2000 \<le> c \<and> c \<le> 0x200A))"

definition to_ascii :: "interpreter \<Rightarrow> nat \<Rightarrow> nat" where
  "to_ascii py ch =
     (if ch < 127 then ch
      else if unicode_space ch then 0x20
      else (case todecimal py ch of None \<Rightarrow> 0x3F | Some d \<Rightarrow> 0x30 + d))"

definition strip :: "nat list \<Rightarrow> nat list" where
  "strip s = rev (dropWhile ascii_space (rev (dropWhile ascii_space s)))"

definition is_digit :: "nat \<Rightarrow> bool" where
  "is_digit c = (0x30 \<le> c \<and> c \<le> 0x39)"

text \<open>
  The digits after the sign: \<open>need\<close> says that a digit must come next (at the start and
  after an underscore), \<open>acc\<close> is the value so far; \<^verbatim>\<open>0x5F\<close> is the underscore.
\<close>

fun digits :: "bool \<Rightarrow> int \<Rightarrow> nat list \<Rightarrow> int option" where
  "digits need acc [] = (if need then None else Some acc)"
| "digits need acc (c # cs) =
     (if is_digit c then digits False (acc * 10 + (int c - 0x30)) cs
      else if c = 0x5F \<and> \<not> need then digits True acc cs
      else None)"

definition py_int :: "interpreter \<Rightarrow> string \<Rightarrow> py_error + int" where
  "py_int py s =
     (case utf8_decode s of
        None \<Rightarrow> Inl ValueError
      | Some cps \<Rightarrow>
          (let t = strip (map (to_ascii py) cps);
               r = (case t of
                      [] \<Rightarrow> None
                    | c # cs \<Rightarrow>
                        if c = 0x2D then map_option uminus (digits True 0 cs)
                        else if c = 0x2B then digits True 0 cs
                        else digits True 0 (c # cs));
               n = length (filter is_digit t)
           in case r of
                None \<Rightarrow> Inl ValueError
              | Some i \<Rightarrow>
                  if 640 < n \<and> 0 < max_str_digits py \<and> max_str_digits py < n
                  then Inl ValueError
                  else Inr i))"

subsection \<open>\<^verbatim>\<open>os.path.join\<close> and \<^verbatim>\<open>os.path.basename\<close>\<close>

definition sep :: char where
  "sep = CHR ''/''"

text \<open>
  One round of the loop of \<^verbatim>\<open>posixpath.join\<close>: a component that starts with the
  separator replaces what was joined so far, an empty path or one that ends with the
  separator takes the component as it is, and otherwise a separator goes between.
\<close>

definition join_step :: "string \<Rightarrow> string \<Rightarrow> string" where
  "join_step path b =
     (if b \<noteq> [] \<and> hd b = sep then b
      else if path = [] \<or> last path = sep then path @ b
      else path @ [sep] @ b)"

definition join :: "string \<Rightarrow> string list \<Rightarrow> string" where
  "join a p = foldl join_step a p"

text \<open>\<^verbatim>\<open>posixpath.basename\<close>: what follows the last separator.\<close>

definition basename :: "string \<Rightarrow> string" where
  "basename p = rev (takeWhile (\<lambda>x. x \<noteq> sep) (rev p))"

section \<open>The book snapshot\<close>

text \<open>
  The classes of the pickled snapshot, as \<^verbatim>\<open>src/reproduce_issue.py\<close> declares them
  (the module \<^verbatim>\<open>reader3\<close> that the server imports them from has the same classes).
  Field names carry the class as a prefix where two classes share a name.
\<close>

record ChapterContent =
  chapter_id :: string
  chapter_href :: string
  chapter_title :: string
  chapter_content :: string
  chapter_text :: string
  chapter_order :: int

datatype TOCEntry =
  TOCEntry (toc_title: string) (toc_href: string) (file_href: string) (anchor: string)
           (children: "TOCEntry list")

record BookMetadata =
  title :: string
  language :: string
  authors :: "string list"
  description :: "string option"
  publisher :: "string option"
  date :: "string option"
  identifiers :: "string list"
  subjects :: "string list"

record Book =
  metadata :: BookMetadata
  spine :: "ChapterContent list"
  toc :: "TOCEntry list"
  images :: "(string \<times> string) list"
  source_file :: string
  processed_at :: string
  version :: string

section \<open>The path resolver\<close>

text \<open>
  The environment is what the server reads of it. \<open>python\<close> is the interpreter, as far
  as \<^verbatim>\<open>int\<close> depends on it. The rest is the file system: \<open>path_exists\<close> is
  \<^verbatim>\<open>os.path.exists\<close>, \<open>isdir\<close> is \<^verbatim>\<open>os.path.isdir\<close>, \<open>listdir\<close> is
  \<^verbatim>\<open>os.listdir\<close> (which raises on what is not a readable directory), \<open>abspath\<close> is
  \<^verbatim>\<open>os.path.abspath\<close>, and \<open>unpickle\<close> is opening a file and \<^verbatim>\<open>pickle.load\<close> of it:
  the book, or the message of the \<^verbatim>\<open>Exception\<close> raised (what \<^verbatim>\<open>except Exception\<close>
  catches; an interrupt or an exit of the interpreter is no result of a load).
\<close>

record environment =
  python :: interpreter
  path_exists :: "string \<Rightarrow> bool"
  isdir :: "string \<Rightarrow> bool"
  listdir :: "string \<Rightarrow> py_error + string list"
  abspath :: "string \<Rightarrow> string"
  unpickle :: "string \<Rightarrow> string + Book"

type_synonym resolved = "string option \<times> string option"

text \<open>
  The body of the \<^verbatim>\<open>try\<close> of \<open>resolve_book_path\<close>: \<open>Inr (Some r)\<close> is its
  \<^verbatim>\<open>return\<close>, \<open>Inr None\<close> is falling out of the \<^verbatim>\<open>if\<close>, \<open>Inl e\<close> is a raise. Unpacking
  the split into two names raises \<^verbatim>\<open>ValueError\<close> unless it has two parts.
\<close>

definition explicit_index ::
  "interpreter \<Rightarrow> string list \<Rightarrow> string \<Rightarrow> py_error + resolved option" where
  "explicit_index py BOOK_DIRS book_id =
     (case split_once CHR '':'' book_id of
        [idx_s, folder] \<Rightarrow>
          (case py_int py idx_s of
             Inl e \<Rightarrow> Inl e
           | Inr idx \<Rightarrow>
               if 0 \<le> idx \<and> idx < int (length BOOK_DIRS)
               then (let base_dir = BOOK_DIRS ! nat idx
                     in Inr (Some (Some (join base_dir [folder, ''book.pkl'']),
                                   Some (join base_dir [folder]))))
               else Inr None)
      | _ \<Rightarrow> Inl ValueError)"

text \<open>The fallback loop over \<^verbatim>\<open>BOOK_DIRS\<close>, and the final \<^verbatim>\<open>return None, None\<close>.\<close>

fun search_dirs :: "(string \<Rightarrow> bool) \<Rightarrow> string list \<Rightarrow> string \<Rightarrow> resolved" where
  "search_dirs ex [] book_id = (None, None)"
| "search_dirs ex (d # ds) book_id =
     (let pkl_path = join d [book_id, ''book.pkl'']
      in if ex pkl_path then (Some pkl_path, Some (join d [book_id]))
         else search_dirs ex ds book_id)"

definition resolve_book_path ::
  "environment \<Rightarrow> string list \<Rightarrow> string \<Rightarrow> py_error + resolved" where
  "resolve_book_path env BOOK_DIRS book_id =
     (case (if CHR '':'' \<in> set book_id then explicit_index (python env) BOOK_DIRS book_id
            else Inr None) of
        Inr (Some r) \<Rightarrow> Inr r
      | Inr None \<Rightarrow> Inr (search_dirs (path_exists env) BOOK_DIRS book_id)
      | Inl ValueError \<Rightarrow> Inr (search_dirs (path_exists env) BOOK_DIRS book_id)
      | Inl e \<Rightarrow> Inl e)"

section \<open>The book cache\<close>

text \<open>
  The body of \<open>load_book_cached\<close>, without its decorator: the value returned, and the
  lines printed. An empty string counts as false for \<^verbatim>\<open>not file_path\<close>, as \<^verbatim>\<open>None\<close>
  does.
\<close>

definition load_book ::
  "environment \<Rightarrow> string list \<Rightarrow> string \<Rightarrow> py_error + (Book option \<times> string list)" where
  "load_book env BOOK_DIRS book_id =
     (case resolve_book_path env BOOK_DIRS book_id of
        Inl e \<Rightarrow> Inl e
      | Inr (file_path, _) \<Rightarrow>
          (case file_path of
             None \<Rightarrow> Inr (None, [])
           | Some p \<Rightarrow>
               if p = [] \<or> \<not> path_exists env p then Inr (None, [])
               else (case unpickle env p of
                       Inr book \<Rightarrow> Inr (Some book, [])
                     | Inl e \<Rightarrow> Inr (None, [''Error loading book '' @ book_id @ '': '' @ e]))))"

text \<open>
  \<^verbatim>\<open>functools.lru_cache(maxsize=10)\<close>: the entries in the order of their last use, the
  least recently used first, and the two counters that \<^verbatim>\<open>cache_info()\<close> reports. A hit
  moves the entry to the end and counts a hit. A miss counts a miss and calls the
  function; an exception leaves the entries as they were; a result is appended, after the
  oldest entry is dropped when the cache already holds \<open>maxsize\<close> entries. The key of a
  call with one positional string is the string.
\<close>

definition maxsize :: nat where
  "maxsize = 10"

record lru_cache =
  entries :: "(string \<times> Book option) list"
  hits :: nat
  misses :: nat

record server_state =
  cache :: lru_cache
  stdout :: "string list"

definition load_book_cached ::
  "environment \<Rightarrow> string list \<Rightarrow> server_state \<Rightarrow> string
     \<Rightarrow> (py_error + Book option) \<times> server_state" where
  "load_book_cached env BOOK_DIRS s book_id =
     (let c = cache s in
      case map_of (entries c) book_id of
        Some result \<Rightarrow>
          (Inr result,
           s\<lparr>cache := c\<lparr>entries := remove1 (book_id, result) (entries c) @ [(book_id, result)],
                          hits := hits c + 1\<rparr>\<rparr>)
      | None \<Rightarrow>
          (case load_book env BOOK_DIRS book_id of
             Inl e \<Rightarrow> (Inl e, s\<lparr>cache := c\<lparr>misses := misses c + 1\<rparr>\<rparr>)
           | Inr (result, printed) \<Rightarrow>
               (Inr result,
                s\<lparr>cache := c\<lparr>entries :=
                                 (if length (entries c) \<ge> maxsize then tl (entries c)
                                  else entries c) @ [(book_id, result)],
                               misses := misses c + 1\<rparr>,
                  stdout := stdout s @ printed\<rparr>)))"

definition initial_state :: server_state where
  "initial_state = \<lparr>cache = \<lparr>entries = [], hits = 0, misses = 0\<rparr>, stdout = []\<rparr>"

text \<open>A sequence of lookups, one after the other, from a given state.\<close>

fun lookups :: "environment \<Rightarrow> string list \<Rightarrow> server_state \<Rightarrow> string list \<Rightarrow> server_state" where
  "lookups env BOOK_DIRS s [] = s"
| "lookups env BOOK_DIRS s (book_id # ids) =
     lookups env BOOK_DIRS (snd (load_book_cached env BOOK_DIRS s book_id)) ids"

text \<open>
  The position of the last use of an identifier in a sequence of lookups (\<open>None\<close> when it
  was never looked up): what "least recently used" is measured by.
\<close>

fun last_use :: "string list \<Rightarrow> string \<Rightarrow> nat option" where
  "last_use [] k = None"
| "last_use (x # xs) k =
     (case last_use xs k of
        Some i \<Rightarrow> Some (Suc i)
      | None \<Rightarrow> if x = k then Some 0 else None)"

section \<open>The reading endpoints\<close>

text \<open>
  A request is opaque to the handlers, which only pass it on to the template. A response
  is the template with its context (rendering is the template engine's), or the file to
  send. The state is threaded through every handler, since each lookup changes the cache.
\<close>

datatype Request = Request string

record directory_entry =
  dir_name :: string
  dir_path :: string
  dir_index :: nat

record book_entry =
  entry_id :: string
  entry_title :: string
  entry_author :: string
  entry_chapters :: nat

record reader_context =
  ctx_request :: Request
  ctx_book :: Book
  ctx_current_chapter :: ChapterContent
  ctx_chapter_index :: int
  ctx_book_id :: string
  ctx_prev_idx :: "int option"
  ctx_next_idx :: "int option"

datatype response =
    LibraryDirectories Request "directory_entry list"
  | LibraryBooks Request "book_entry list"
  | Reader reader_context
  | FileResponse string

subsection \<open>\<^verbatim>\<open>str(int)\<close>, for the scoped identifier\<close>

definition digit_char :: "nat \<Rightarrow> char" where
  "digit_char n = char_of (48 + n)"

function str_nat :: "nat \<Rightarrow> string" where
  "str_nat n = (if n < 10 then [digit_char n] else str_nat (n div 10) @ [digit_char (n mod 10)])"
  by pat_completeness auto
termination
  by (relation "measure (\<lambda>n. n)") auto

definition str_int :: "int \<Rightarrow> string" where
  "str_int i = (if i < 0 then CHR ''-'' # str_nat (nat (- i)) else str_nat (nat i))"

subsection \<open>The library listing\<close>

text \<open>
  The loop over \<^verbatim>\<open>os.listdir(target_dir)\<close>, with the list \<open>books\<close> built so far. A
  loaded book is an instance of a class without \<^verbatim>\<open>__bool__\<close> or \<^verbatim>\<open>__len__\<close>, so
  \<^verbatim>\<open>if book\<close> is \<^verbatim>\<open>book is not None\<close>.
\<close>

fun list_books ::
  "environment \<Rightarrow> string list \<Rightarrow> int \<Rightarrow> string \<Rightarrow> server_state \<Rightarrow> string list
     \<Rightarrow> book_entry list \<Rightarrow> (py_error + book_entry list) \<times> server_state" where
  "list_books env BOOK_DIRS target_idx target_dir s [] books = (Inr books, s)"
| "list_books env BOOK_DIRS target_idx target_dir s (item # items) books =
     (if endswith item ''_data'' then
        (let full_item_path = join target_dir [item] in
         if isdir env full_item_path then
           (let scoped_id = str_int target_idx @ '':'' @ item in
            case load_book_cached env BOOK_DIRS s scoped_id of
              (Inl e, s') \<Rightarrow> (Inl e, s')
            | (Inr None, s') \<Rightarrow> list_books env BOOK_DIRS target_idx target_dir s' items books
            | (Inr (Some book), s') \<Rightarrow>
                list_books env BOOK_DIRS target_idx target_dir s' items
                  (books @ [\<lparr>entry_id = scoped_id,
                              entry_title = title (metadata book),
                              entry_author = str_join '', '' (authors (metadata book)),
                              entry_chapters = length (spine book)\<rparr>]))
         else list_books env BOOK_DIRS target_idx target_dir s items books)
      else list_books env BOOK_DIRS target_idx target_dir s items books)"

definition library_view ::
  "environment \<Rightarrow> string list \<Rightarrow> server_state \<Rightarrow> Request \<Rightarrow> int option
     \<Rightarrow> (py_error + response) \<times> server_state" where
  "library_view env BOOK_DIRS s request dir_idx =
     (if length BOOK_DIRS > 1 \<and> dir_idx = None then
        (Inr (LibraryDirectories request
                (map (\<lambda>(i, d). \<lparr>dir_name = (let b = basename (abspath env d)
                                               in if b = [] then d else b),
                                   dir_path = abspath env d,
                                   dir_index = i\<rparr>)
                     (enumerate 0 BOOK_DIRS))), s)
      else
        (let target_idx = (case dir_idx of Some i \<Rightarrow> i | None \<Rightarrow> 0);
             target_idx = (if target_idx < 0 \<or> target_idx \<ge> int (length BOOK_DIRS) then 0
                           else target_idx)
         in if \<not> (nat target_idx < length BOOK_DIRS) then (Inl IndexError, s)
            else
              (let target_dir = BOOK_DIRS ! nat target_idx in
               if path_exists env target_dir then
                 (case listdir env target_dir of
                    Inl e \<Rightarrow> (Inl e, s)
                  | Inr items \<Rightarrow>
                      (case list_books env BOOK_DIRS target_idx target_dir s items [] of
                         (Inl e, s') \<Rightarrow> (Inl e, s')
                       | (Inr books, s') \<Rightarrow> (Inr (LibraryBooks request books), s')))
               else (Inr (LibraryBooks request []), s))))"

subsection \<open>Chapter navigation\<close>

definition read_chapter ::
  "environment \<Rightarrow> string list \<Rightarrow> server_state \<Rightarrow> Request \<Rightarrow> string \<Rightarrow> int
     \<Rightarrow> (py_error + response) \<times> server_state" where
  "read_chapter env BOOK_DIRS s request book_id chapter_index =
     (case load_book_cached env BOOK_DIRS s book_id of
        (Inl e, s') \<Rightarrow> (Inl e, s')
      | (Inr None, s') \<Rightarrow> (Inl (HTTPException 404 ''Book not found''), s')
      | (Inr (Some book), s') \<Rightarrow>
          if chapter_index < 0 \<or> chapter_index \<ge> int (length (spine book))
          then (Inl (HTTPException 404 ''Chapter not found''), s')
          else
            (let current_chapter = spine book ! nat chapter_index;
                 prev_idx = (if chapter_index > 0 then Some (chapter_index - 1) else None);
                 next_idx = (if chapter_index < int (length (spine book)) - 1
                             then Some (chapter_index + 1) else None)
             in (Inr (Reader \<lparr>ctx_request = request,
                               ctx_book = book,
                               ctx_current_chapter = current_chapter,
                               ctx_chapter_index = chapter_index,
                               ctx_book_id = book_id,
                               ctx_prev_idx = prev_idx,
                               ctx_next_idx = next_idx\<rparr>), s')))"

text \<open>
  A Python call of \<open>read_chapter\<close>, whose parameters \<^verbatim>\<open>request\<close>, \<^verbatim>\<open>book_id\<close> and
  \<^verbatim>\<open>chapter_index\<close> are all required: an argument the caller leaves out is \<open>None\<close> here,
  and the call raises \<^verbatim>\<open>TypeError\<close> before the body runs.
\<close>

definition call_read_chapter ::
  "environment \<Rightarrow> string list \<Rightarrow> server_state \<Rightarrow> Request option \<Rightarrow> string option \<Rightarrow> int option
     \<Rightarrow> (py_error + response) \<times> server_state" where
  "call_read_chapter env BOOK_DIRS s request book_id chapter_index =
     (case request of
        None \<Rightarrow> (Inl (TypeError ''missing required argument: request''), s)
      | Some r \<Rightarrow>
          (case book_id of
             None \<Rightarrow> (Inl (TypeError ''missing required argument: book_id''), s)
           | Some b \<Rightarrow>
               (case chapter_index of
                  None \<Rightarrow> (Inl (TypeError ''missing required argument: chapter_index''), s)
                | Some i \<Rightarrow> read_chapter env BOOK_DIRS s r b i)))"

text \<open>
  \<^verbatim>\<open>return await read_chapter(book_id=book_id, chapter_index=0)\<close>: the call passes no
  \<^verbatim>\<open>request\<close>.
\<close>

definition redirect_to_first_chapter ::
  "environment \<Rightarrow> string list \<Rightarrow> server_state \<Rightarrow> string
     \<Rightarrow> (py_error + response) \<times> server_state" where
  "redirect_to_first_chapter env BOOK_DIRS s book_id =
     call_read_chapter env BOOK_DIRS s None (Some book_id) (Some 0)"

subsection \<open>Image retrieval\<close>

text \<open>The path that \<open>serve_image\<close> builds for an image of a book folder.\<close>

definition image_path :: "string \<Rightarrow> string \<Rightarrow> string" where
  "image_path book_folder image_name =
     (let safe_image_name = basename image_name
      in join book_folder [''images'', safe_image_name])"

definition serve_image ::
  "environment \<Rightarrow> string list \<Rightarrow> string \<Rightarrow> string \<Rightarrow> py_error + response" where
  "serve_image env BOOK_DIRS book_id image_name =
     (case resolve_book_path env BOOK_DIRS book_id of
        Inl e \<Rightarrow> Inl e
      | Inr (_, book_folder) \<Rightarrow>
          (case book_folder of
             None \<Rightarrow> Inl (HTTPException 404 ''Book path not found'')
           | Some folder \<Rightarrow>
               if folder = [] then Inl (HTTPException 404 ''Book path not found'')
               else
                 (let img_path = image_path folder image_name in
                  if \<not> path_exists env img_path then Inl (HTTPException 404 ''Image not found'')
                  else Inr (FileResponse img_path))))"

subsection \<open>Start-up\<close>

text \<open>The root directories that the main block takes from \<^verbatim>\<open>sys.argv\<close>.\<close>

definition book_dirs_of_argv :: "string list \<Rightarrow> string list" where
  "book_dirs_of_argv argv = (if length argv > 1 then tl argv else [''.''])"

section \<open>Words of the specification\<close>

text \<open>
  The part of an identifier before its first colon, and what the specification calls a
  valid scoped identifier: there is a colon, and \<^verbatim>\<open>int\<close> reads the part before it as
  an index into the root directories.
\<close>

definition index_prefix :: "string \<Rightarrow> string" where
  "index_prefix book_id = takeWhile (\<lambda>c. c \<noteq> CHR '':'') book_id"

definition valid_scope :: "interpreter \<Rightarrow> string list \<Rightarrow> string \<Rightarrow> bool" where
  "valid_scope py BOOK_DIRS book_id =
     (CHR '':'' \<in> set book_id \<and>
      (case py_int py (index_prefix book_id) of
         Inl e \<Rightarrow> False
       | Inr i \<Rightarrow> 0 \<le> i \<and> i < int (length BOOK_DIRS)))"

text \<open>The snapshot file of a book folder under a root, and the folder itself.\<close>

definition snapshot_path :: "string \<Rightarrow> string \<Rightarrow> string" where
  "snapshot_path root folder = join root [folder, ''book.pkl'']"

definition folder_path :: "string \<Rightarrow> string \<Rightarrow> string" where
  "folder_path root folder = join root [folder]"

text \<open>
  The keys of the cache in the order the cache keeps them, and that order described
  on its own: \<open>lru_step\<close> is what one lookup does to the keys, \<open>most_recent\<close> is the last
  \<open>maxsize\<close> of the identifiers looked up so far, each once, ordered by its last use.
  \<open>used_before h a b\<close> says that the last use of \<open>a\<close> in the history \<open>h\<close> is earlier than
  the last use of \<open>b\<close>.
\<close>

definition keys :: "server_state \<Rightarrow> string list" where
  "keys s = map fst (entries (cache s))"

definition lru_step :: "string list \<Rightarrow> string \<Rightarrow> string list" where
  "lru_step ks x =
     (if x \<in> set ks then remove1 x ks @ [x]
      else (if length ks \<ge> maxsize then tl ks else ks) @ [x])"

definition most_recent :: "string list \<Rightarrow> string list" where
  "most_recent h = drop (length (remdups h) - maxsize) (remdups h)"

definition used_before :: "string list \<Rightarrow> string \<Rightarrow> string \<Rightarrow> bool" where
  "used_before h a b =
     (case (last_use h a, last_use h b) of (Some i, Some j) \<Rightarrow> i < j | _ \<Rightarrow> False)"

text \<open>
  Where a path leads: its components, with empty components and \<^verbatim>\<open>.\<close> dropped and
  each \<^verbatim>\<open>..\<close> taking back the component before it (at the root it stays at the
  root). A path is inside a directory when the directory's components begin its own.
  This is the reading of "never escapes" for absolute paths without symbolic links.
\<close>

fun split_sep :: "string \<Rightarrow> string list" where
  "split_sep [] = [[]]"
| "split_sep (c # cs) =
     (let r = split_sep cs in if c = sep then [] # r else (c # hd r) # tl r)"

fun walk :: "string list \<Rightarrow> string list \<Rightarrow> string list" where
  "walk acc [] = rev acc"
| "walk acc (c # cs) =
     (if c = [] \<or> c = ''.'' then walk acc cs
      else if c = ''..'' then walk (tl acc) cs
      else walk (c # acc) cs)"

definition location :: "string \<Rightarrow> string list" where
  "location p = walk [] (split_sep p)"

definition inside :: "string \<Rightarrow> string \<Rightarrow> bool" where
  "inside dir p = (take (length (location dir)) (location p) = location dir)"

section \<open>An example library\<close>

text \<open>
  The example of the specification, extended: the root \<^verbatim>\<open>/lib\<close> holds the book
  \<^verbatim>\<open>bookA_data\<close> with three chapters and a folder \<^verbatim>\<open>broken_data\<close> whose snapshot
  does not load; a second root \<^verbatim>\<open>/more\<close> holds \<^verbatim>\<open>bookA_data\<close> again and
  \<^verbatim>\<open>bookB_data\<close>, and a folder whose name has a colon, \<^verbatim>\<open>vol:2_data\<close>.
\<close>

definition example_chapter :: "nat \<Rightarrow> ChapterContent" where
  "example_chapter n =
     \<lparr>chapter_id = str_nat n, chapter_href = ''ch.html'', chapter_title = ''Chapter'',
      chapter_content = ''<p>Hello</p>'', chapter_text = ''Hello'', chapter_order = int n\<rparr>"

definition example_book :: Book where
  "example_book =
     \<lparr>metadata = \<lparr>title = ''Test Book'', language = ''en'', authors = [''Me''],
                   description = None, publisher = None, date = None,
                   identifiers = [], subjects = []\<rparr>,
      spine = [example_chapter 0, example_chapter 1, example_chapter 2],
      toc = [TOCEntry ''Chapter'' ''ch.html'' ''ch.html'' [] []],
      images = [],
      source_file = ''test.epub'',
      processed_at = ''2025-01-01T00:00:00'',
      version = ''3.0''\<rparr>"

text \<open>
  The interpreter of the example knows the Arabic-Indic digits, a part of the Unicode
  database, and has the default limit on digits.
\<close>

definition example_python :: interpreter where
  "example_python =
     \<lparr>todecimal = (\<lambda>c. if 0x660 \<le> c \<and> c \<le> 0x669 then Some (c - 0x660) else None),
      max_str_digits = 4300\<rparr>"

definition example_env :: environment where
  "example_env =
     \<lparr>python = example_python,
      path_exists = (\<lambda>p. p \<in> set [''/lib'', ''/lib/bookA_data'', ''/lib/bookA_data/book.pkl'',
                                    ''/lib/bookA_data/images'', ''/lib/bookA_data/images/..'',
                                    ''/lib/bookA_data/images/cover.png'',
                                    ''/lib/broken_data'', ''/lib/broken_data/book.pkl'',
                                    ''/more'', ''/more/bookA_data'', ''/more/bookA_data/book.pkl'',
                                    ''/more/bookB_data'', ''/more/bookB_data/book.pkl'',
                                    ''/more/vol:2_data'', ''/more/vol:2_data/book.pkl'']),
      isdir = (\<lambda>p. p \<in> set [''/lib'', ''/lib/bookA_data'', ''/lib/bookA_data/images'',
                              ''/lib/bookA_data/images/..'', ''/lib/broken_data'',
                              ''/more'', ''/more/bookA_data'', ''/more/bookB_data'',
                              ''/more/vol:2_data'']),
      listdir = (\<lambda>p. if p = ''/lib'' then Inr [''bookA_data'', ''broken_data'', ''notes.txt'']
                      else if p = ''/more'' then Inr [''bookA_data'', ''bookB_data'', ''vol:2_data'']
                      else Inl (OSError ''not a directory'')),
      abspath = (\<lambda>p. p),
      unpickle = (\<lambda>p. if p = ''/lib/bookA_data/book.pkl'' \<or> p = ''/more/bookA_data/book.pkl''
                          \<or> p = ''/more/bookB_data/book.pkl''
                          \<or> p = ''/more/vol:2_data/book.pkl''
                       then Inr example_book
                       else Inl ''invalid load key'')\<rparr>"

text \<open>The same library with nothing of it on disk.\<close>

definition empty_env :: environment where
  "empty_env =
     \<lparr>python = example_python,
      path_exists = (\<lambda>p. False), isdir = (\<lambda>p. False),
      listdir = (\<lambda>p. Inl (OSError ''no such directory'')),
      abspath = (\<lambda>p. p), unpickle = (\<lambda>p. Inl ''no such file'')\<rparr>"

text \<open>
  Ten identifiers looked up in turn, then the first of them again: after that the
  least recently used is the second.
\<close>

definition example_history :: "string list" where
  "example_history = [''a'', ''b'', ''c'', ''d'', ''e'', ''f'', ''g'', ''h'', ''i'', ''j'', ''a'']"

section \<open>Facts about the library functions\<close>

lemma py_int_error: "py_int py s = Inl e \<Longrightarrow> e = ValueError"
  by (auto simp: py_int_def Let_def split: option.splits if_splits)

text \<open>ASCII prefixes read the same in every interpreter.\<close>

lemma py_int_0: "py_int py ''0'' = Inr 0"
  by (simp add: py_int_def strip_def ascii_space_def is_digit_def to_ascii_def Let_def)

lemma py_int_7: "py_int py ''7'' = Inr 7"
  by (simp add: py_int_def strip_def ascii_space_def is_digit_def to_ascii_def Let_def)

lemma py_int_vol: "py_int py ''vol'' = Inl ValueError"
  by (simp add: py_int_def strip_def ascii_space_def is_digit_def to_ascii_def Let_def)

text \<open>
  The file separator \<^verbatim>\<open>0x1C\<close> is no white space for \<^verbatim>\<open>int\<close>; the no-break space
  \<^verbatim>\<open>U+00A0\<close> is, and the Arabic-Indic digit three \<^verbatim>\<open>U+0663\<close> is a digit.
\<close>

lemma py_int_file_separator: "py_int py [CHR 0x1C, CHR ''0''] = Inl ValueError"
  by (simp add: py_int_def strip_def ascii_space_def is_digit_def to_ascii_def Let_def)

lemma py_int_no_break_space: "py_int py [CHR 0xC2, CHR 0xA0, CHR ''0''] = Inr 0"
  by (simp add: py_int_def strip_def ascii_space_def is_digit_def to_ascii_def Let_def
      cont_def tail_bits_def unicode_space_def)

lemma py_int_arabic_three: "py_int example_python [CHR 0xD9, CHR 0xA3] = Inr 3"
  by (simp add: py_int_def strip_def ascii_space_def is_digit_def to_ascii_def Let_def
      cont_def tail_bits_def unicode_space_def example_python_def)

text \<open>More digits than the limit allows raise \<^verbatim>\<open>ValueError\<close>, whatever they are.\<close>

lemma py_int_over_limit:
  assumes "utf8_decode s = Some cps"
    and "640 < length (filter is_digit (strip (map (to_ascii py) cps)))"
    and "0 < max_str_digits py"
    and "max_str_digits py < length (filter is_digit (strip (map (to_ascii py) cps)))"
  shows "py_int py s = Inl ValueError"
  using assms by (simp add: py_int_def Let_def split: option.splits)

lemma takeWhile_until: "c \<notin> set xs \<Longrightarrow> takeWhile (\<lambda>x. x \<noteq> c) (xs @ c # ys) = xs"
  by (induction xs) auto

lemma dropWhile_until: "c \<notin> set xs \<Longrightarrow> dropWhile (\<lambda>x. x \<noteq> c) (xs @ c # ys) = c # ys"
  by (induction xs) auto

lemma split_once_colon:
  "c \<in> set s \<Longrightarrow> split_once c s = [takeWhile (\<lambda>x. x \<noteq> c) s, tl (dropWhile (\<lambda>x. x \<noteq> c) s)]"
  by (simp add: split_once_def)

lemma join_plain:
  "root \<noteq> [] \<Longrightarrow> last root \<noteq> sep \<Longrightarrow> folder \<noteq> [] \<Longrightarrow> hd folder \<noteq> sep \<Longrightarrow>
   join root [folder] = root @ ''/'' @ folder"
  by (simp add: join_def join_step_def sep_def)

lemma join_plain_snapshot:
  "root \<noteq> [] \<Longrightarrow> last root \<noteq> sep \<Longrightarrow> folder \<noteq> [] \<Longrightarrow> hd folder \<noteq> sep \<Longrightarrow>
   last folder \<noteq> sep \<Longrightarrow>
   join root [folder, ''book.pkl''] = root @ ''/'' @ folder @ ''/book.pkl''"
  by (simp add: join_def join_step_def sep_def)

section \<open>The path resolver: what it returns\<close>

subsection \<open>The fallback loop\<close>

lemma search_dirs_none:
  "\<forall>d \<in> set ds. \<not> ex (snapshot_path d b) \<Longrightarrow> search_dirs ex ds b = (None, None)"
  by (induction ds) (auto simp: snapshot_path_def Let_def)

lemma search_dirs_first:
  "k < length ds \<Longrightarrow> ex (snapshot_path (ds ! k) b) \<Longrightarrow>
   \<forall>j<k. \<not> ex (snapshot_path (ds ! j) b) \<Longrightarrow>
   search_dirs ex ds b = (Some (snapshot_path (ds ! k) b), Some (folder_path (ds ! k) b))"
proof (induction ds arbitrary: k)
  case Nil
  then show ?case by simp
next
  case (Cons d ds)
  show ?case
  proof (cases k)
    case 0
    with Cons.prems show ?thesis
      by (simp add: snapshot_path_def folder_path_def Let_def)
  next
    case (Suc k')
    from Cons.prems(3) Suc have first: "\<not> ex (snapshot_path d b)"
      by auto
    from Cons.prems(3) Suc have rest: "\<forall>j<k'. \<not> ex (snapshot_path (ds ! j) b)"
      by auto
    from Cons.prems(1,2) Suc have "k' < length ds" "ex (snapshot_path (ds ! k') b)"
      by auto
    from Cons.IH [OF this rest] first Suc show ?thesis
      by (simp add: snapshot_path_def Let_def)
  qed
qed

text \<open>
  Whatever is not a valid scoped identifier ends in the fallback loop, with the whole
  identifier as the folder name; the \<^verbatim>\<open>ValueError\<close> of \<^verbatim>\<open>int\<close> is caught, and nothing
  else is raised.
\<close>

lemma resolve_fallback:
  "\<not> valid_scope (python env) BOOK_DIRS book_id \<Longrightarrow>
   resolve_book_path env BOOK_DIRS book_id = Inr (search_dirs (path_exists env) BOOK_DIRS book_id)"
  by (auto simp: resolve_book_path_def valid_scope_def explicit_index_def split_once_colon
      index_prefix_def dest: py_int_error split: sum.splits option.splits py_error.splits)

subsection \<open>Scoped identifiers\<close>

lemma resolve_scoped:
  assumes "CHR '':'' \<notin> set idx_s"
    and "py_int (python env) idx_s = Inr i"
    and "0 \<le> i" and "i < int (length BOOK_DIRS)"
  shows "resolve_book_path env BOOK_DIRS (idx_s @ '':'' @ folder) =
           Inr (Some (snapshot_path (BOOK_DIRS ! nat i) folder),
                Some (folder_path (BOOK_DIRS ! nat i) folder))"
proof -
  have colon: "CHR '':'' \<in> set (idx_s @ '':'' @ folder)"
    by simp
  have parts: "split_once CHR '':'' (idx_s @ '':'' @ folder) = [idx_s, folder]"
    using assms(1) by (simp add: split_once_def takeWhile_until dropWhile_until)
  have "explicit_index (python env) BOOK_DIRS (idx_s @ '':'' @ folder) =
          Inr (Some (Some (snapshot_path (BOOK_DIRS ! nat i) folder),
                     Some (folder_path (BOOK_DIRS ! nat i) folder)))"
    using assms(2-4) parts
    by (simp add: explicit_index_def snapshot_path_def folder_path_def Let_def)
  with colon show ?thesis
    by (simp add: resolve_book_path_def)
qed

text \<open>
  C5. For a scoped identifier \<open>idx_s:folder\<close> whose prefix \<open>idx_s\<close> \<^verbatim>\<open>int\<close> reads as an
  integer \<open>i\<close> with \<open>0 \<le> i < len(BOOK_DIRS)\<close>, \<open>resolve_book_path\<close> returns the snapshot
  path and the folder joined from \<open>BOOK_DIRS[i]\<close> and \<open>folder\<close>, in every environment,
  whatever its disk holds: no existence check enters the result. The paths are those of
  \<^verbatim>\<open>os.path.join\<close> (the snapshot file is \<^verbatim>\<open>book.pkl\<close> in the source); they are the
  root, a separator, the folder name (a separator and the file name) where root and
  folder name are not empty and have no separator at the joints.
\<close>

theorem scoped_resolution_constructs_path:
  assumes "CHR '':'' \<notin> set idx_s"
    and "py_int (python env) idx_s = Inr i"
    and "0 \<le> i" and "i < int (length BOOK_DIRS)"
  shows "resolve_book_path env BOOK_DIRS (idx_s @ '':'' @ folder) =
           Inr (Some (snapshot_path (BOOK_DIRS ! nat i) folder),
                Some (folder_path (BOOK_DIRS ! nat i) folder)) \<and>
         (BOOK_DIRS ! nat i \<noteq> [] \<and> last (BOOK_DIRS ! nat i) \<noteq> sep \<and>
          folder \<noteq> [] \<and> hd folder \<noteq> sep \<and> last folder \<noteq> sep \<longrightarrow>
            snapshot_path (BOOK_DIRS ! nat i) folder =
              (BOOK_DIRS ! nat i) @ ''/'' @ folder @ ''/book.pkl'' \<and>
            folder_path (BOOK_DIRS ! nat i) folder = (BOOK_DIRS ! nat i) @ ''/'' @ folder)"
  using resolve_scoped [OF assms, of folder]
  by (simp add: snapshot_path_def folder_path_def join_plain join_plain_snapshot)

text \<open>
  On a disk that holds nothing, \<^verbatim>\<open>0:bookA_data\<close> still resolves under \<^verbatim>\<open>/lib\<close>, and so
  does the identifier whose prefix is the Arabic-Indic digit zero, \<^verbatim>\<open>U+0660\<close>.
\<close>

lemma py_int_arabic_zero: "py_int (python empty_env) [CHR 0xD9, CHR 0xA0] = Inr 0"
  by (simp add: py_int_def strip_def ascii_space_def is_digit_def to_ascii_def Let_def
      cont_def tail_bits_def unicode_space_def example_python_def empty_env_def)

theorem scoped_resolution_witness:
  "resolve_book_path empty_env [''/lib''] ''0:bookA_data'' =
     Inr (Some ''/lib/bookA_data/book.pkl'', Some ''/lib/bookA_data'') \<and>
   resolve_book_path empty_env [''/lib''] ([CHR 0xD9, CHR 0xA0] @ '':bookA_data'') =
     Inr (Some ''/lib/bookA_data/book.pkl'', Some ''/lib/bookA_data'') \<and>
   \<not> path_exists empty_env ''/lib/bookA_data/book.pkl''"
  using scoped_resolution_constructs_path [where idx_s = "''0''" and i = 0
      and BOOK_DIRS = "[''/lib'']" and env = empty_env and folder = "''bookA_data''"]
    scoped_resolution_constructs_path [where idx_s = "[CHR 0xD9, CHR 0xA0]" and i = 0
      and BOOK_DIRS = "[''/lib'']" and env = empty_env and folder = "''bookA_data''"]
  by (simp add: py_int_0 py_int_arabic_zero sep_def)
     (simp add: empty_env_def)

subsection \<open>Malformed scopes\<close>

text \<open>
  C4. For an identifier with a colon whose prefix before the first colon does not read
  as an integer, or reads as an integer that is no index into \<open>BOOK_DIRS\<close>,
  \<open>resolve_book_path\<close> returns what the fallback loop returns for the whole identifier,
  colon included, as the folder name. The result is a return value (\<open>Inr\<close>), never an
  exception.
\<close>

theorem malformed_scope_falls_back:
  assumes "CHR '':'' \<in> set book_id"
    and "py_int (python env) (index_prefix book_id) = Inl ValueError \<or>
         (\<exists>i. py_int (python env) (index_prefix book_id) = Inr i \<and>
              (i < 0 \<or> int (length BOOK_DIRS) \<le> i))"
  shows "resolve_book_path env BOOK_DIRS book_id =
           Inr (search_dirs (path_exists env) BOOK_DIRS book_id)"
proof -
  from assms(2) have "\<not> valid_scope (python env) BOOK_DIRS book_id"
    by (auto simp: valid_scope_def)
  then show ?thesis
    by (rule resolve_fallback)
qed

text \<open>
  A prefix that is no number: \<^verbatim>\<open>vol:2_data\<close> is found as a folder of that name under
  the second root. A prefix out of range: \<^verbatim>\<open>7:bookA_data\<close> is searched for as a folder
  of that name, which no root has. A prefix that \<^verbatim>\<open>int\<close> rejects for its first
  character, the file separator \<^verbatim>\<open>0x1C\<close> before the digit: the whole identifier is
  searched for as well.
\<close>

theorem malformed_scope_witness:
  "resolve_book_path example_env [''/lib'', ''/more''] ''vol:2_data'' =
     Inr (Some ''/more/vol:2_data/book.pkl'', Some ''/more/vol:2_data'') \<and>
   resolve_book_path example_env [''/lib'', ''/more''] ''7:bookA_data'' = Inr (None, None) \<and>
   resolve_book_path example_env [''/lib'', ''/more''] (CHR 0x1C # ''0:bookA_data'') =
     Inr (None, None)"
  using malformed_scope_falls_back [where book_id = "''vol:2_data''"
      and BOOK_DIRS = "[''/lib'', ''/more'']" and env = example_env]
    malformed_scope_falls_back [where book_id = "''7:bookA_data''"
      and BOOK_DIRS = "[''/lib'', ''/more'']" and env = example_env]
    malformed_scope_falls_back [where book_id = "CHR 0x1C # ''0:bookA_data''"
      and BOOK_DIRS = "[''/lib'', ''/more'']" and env = example_env]
  by (simp add: index_prefix_def py_int_vol py_int_7 py_int_file_separator example_env_def
      join_def join_step_def sep_def)

subsection \<open>Unscoped identifiers\<close>

text \<open>
  C6. For an identifier that is not a valid scoped one (it has no colon, or its scope is
  malformed and it fell through), \<open>resolve_book_path\<close> goes through the roots in list
  order: when the snapshot exists under root \<open>k\<close> and under no root before it, the result
  is the snapshot path and the folder under root \<open>k\<close>; when it exists under no root, both
  components are \<open>None\<close>.
\<close>

theorem unscoped_resolution_first_match:
  assumes "\<not> valid_scope (python env) BOOK_DIRS book_id"
  shows "(\<forall>k<length BOOK_DIRS.
            path_exists env (snapshot_path (BOOK_DIRS ! k) book_id) \<and>
            (\<forall>j<k. \<not> path_exists env (snapshot_path (BOOK_DIRS ! j) book_id)) \<longrightarrow>
            resolve_book_path env BOOK_DIRS book_id =
              Inr (Some (snapshot_path (BOOK_DIRS ! k) book_id),
                   Some (folder_path (BOOK_DIRS ! k) book_id))) \<and>
         ((\<forall>k<length BOOK_DIRS. \<not> path_exists env (snapshot_path (BOOK_DIRS ! k) book_id)) \<longrightarrow>
            resolve_book_path env BOOK_DIRS book_id = Inr (None, None))"
proof (intro conjI allI impI)
  fix k
  assume "k < length BOOK_DIRS"
    and "path_exists env (snapshot_path (BOOK_DIRS ! k) book_id) \<and>
         (\<forall>j<k. \<not> path_exists env (snapshot_path (BOOK_DIRS ! j) book_id))"
  then have "search_dirs (path_exists env) BOOK_DIRS book_id =
               (Some (snapshot_path (BOOK_DIRS ! k) book_id),
                Some (folder_path (BOOK_DIRS ! k) book_id))"
    by (intro search_dirs_first) auto
  with assms show "resolve_book_path env BOOK_DIRS book_id =
                     Inr (Some (snapshot_path (BOOK_DIRS ! k) book_id),
                          Some (folder_path (BOOK_DIRS ! k) book_id))"
    by (simp add: resolve_fallback)
next
  assume "\<forall>k<length BOOK_DIRS. \<not> path_exists env (snapshot_path (BOOK_DIRS ! k) book_id)"
  then have "\<forall>d \<in> set BOOK_DIRS. \<not> path_exists env (snapshot_path d book_id)"
    by (auto simp: in_set_conv_nth)
  then have "search_dirs (path_exists env) BOOK_DIRS book_id = (None, None)"
    by (rule search_dirs_none)
  with assms show "resolve_book_path env BOOK_DIRS book_id = Inr (None, None)"
    by (simp add: resolve_fallback)
qed

text \<open>
  \<^verbatim>\<open>bookA_data\<close> is under both roots and resolves to the first; the identifier has no
  colon.
\<close>

theorem unscoped_resolution_witness:
  "resolve_book_path example_env [''/lib'', ''/more''] ''bookA_data'' =
     Inr (Some ''/lib/bookA_data/book.pkl'', Some ''/lib/bookA_data'') \<and>
   path_exists example_env ''/more/bookA_data/book.pkl''"
proof -
  have unscoped: "\<not> valid_scope (python example_env) [''/lib'', ''/more''] ''bookA_data''"
    by (simp add: valid_scope_def)
  have found: "path_exists example_env (snapshot_path ([''/lib'', ''/more''] ! 0) ''bookA_data'')"
    by (simp add: example_env_def snapshot_path_def join_def join_step_def sep_def)
  from unscoped_resolution_first_match [OF unscoped] found
  have "resolve_book_path example_env [''/lib'', ''/more''] ''bookA_data'' =
          Inr (Some (snapshot_path ([''/lib'', ''/more''] ! 0) ''bookA_data''),
               Some (folder_path ([''/lib'', ''/more''] ! 0) ''bookA_data''))"
    by auto
  then show ?thesis
    by (simp add: snapshot_path_def folder_path_def join_def join_step_def sep_def example_env_def)
qed

section \<open>The book cache: what it holds\<close>

subsection \<open>No lookup raises\<close>

text \<open>
  \<open>resolve_book_path\<close> and the body of \<open>load_book_cached\<close> return a value on every input:
  the only exception that can arise, the \<^verbatim>\<open>ValueError\<close> of \<^verbatim>\<open>int\<close>, is caught.
\<close>

lemma resolve_returns: "\<exists>r. resolve_book_path env BOOK_DIRS book_id = Inr r"
proof (cases "valid_scope (python env) BOOK_DIRS book_id")
  case True
  then show ?thesis
    by (auto simp: resolve_book_path_def valid_scope_def explicit_index_def index_prefix_def
        split_once_colon Let_def split: sum.splits)
next
  case False
  then show ?thesis
    by (simp add: resolve_fallback)
qed

lemma load_book_returns: "\<exists>r printed. load_book env BOOK_DIRS book_id = Inr (r, printed)"
  using resolve_returns [of env BOOK_DIRS book_id]
  by (auto simp: load_book_def split: option.splits sum.splits)

subsection \<open>The keys after a sequence of lookups\<close>

text \<open>
  One lookup changes the keys as \<open>lru_step\<close> says, and after the lookups \<open>h\<close> from the
  empty cache the keys are \<open>most_recent h\<close>: the cache holds the identifiers used last,
  in the order of their last use.
\<close>

lemma map_of_remove1_keys:
  "distinct (map fst es) \<Longrightarrow> map_of es k = Some v \<Longrightarrow>
   map fst (remove1 (k, v) es) = remove1 k (map fst es)"
  by (induction es) (auto simp: rev_image_eqI)

lemma keys_step:
  assumes "distinct (keys s)"
  shows "keys (snd (load_book_cached env BOOK_DIRS s x)) = lru_step (keys s) x"
proof (cases "map_of (entries (cache s)) x")
  case None
  then have "x \<notin> set (keys s)"
    by (simp add: keys_def map_of_eq_None_iff)
  with None load_book_returns [of env BOOK_DIRS x] show ?thesis
    by (auto simp: load_book_cached_def keys_def lru_step_def Let_def map_tl)
next
  case (Some v)
  then have "x \<in> set (keys s)"
    by (auto simp: keys_def dest: map_of_SomeD intro: rev_image_eqI)
  with Some assms show ?thesis
    by (simp add: load_book_cached_def keys_def lru_step_def Let_def map_of_remove1_keys)
qed

lemma lru_step_distinct: "distinct ks \<Longrightarrow> distinct (lru_step ks x)"
  by (cases ks) (auto simp: lru_step_def)

lemma lru_step_length: "length ks \<le> maxsize \<Longrightarrow> length (lru_step ks x) \<le> maxsize"
  by (auto simp: lru_step_def maxsize_def length_remove1)

lemma remdups_snoc: "remdups (h @ [x]) = removeAll x (remdups h) @ [x]"
  by (induction h) auto

lemma last_part_step:
  assumes "distinct r" and "0 < c"
  shows "drop (length (removeAll x r @ [x]) - c) (removeAll x r @ [x]) =
         (let ks = drop (length r - c) r in
          if x \<in> set ks then remove1 x ks @ [x]
          else (if length ks \<ge> c then tl ks else ks) @ [x])"
proof -
  define pre where "pre = take (length r - c) r"
  define suf where "suf = drop (length r - c) r"
  have r: "r = pre @ suf"
    by (simp add: pre_def suf_def)
  have len_suf: "length suf = min c (length r)"
    by (auto simp: suf_def)
  have len_pre: "length pre = length r - c"
    by (simp add: pre_def)
  have len_r: "length r = length pre + length suf"
    by (simp add: pre_def suf_def)
  have rhs: "(let ks = drop (length r - c) r in
              if x \<in> set ks then remove1 x ks @ [x]
              else (if length ks \<ge> c then tl ks else ks) @ [x]) =
             (if x \<in> set suf then remove1 x suf @ [x]
              else (if length suf \<ge> c then tl suf else suf) @ [x])"
    by (simp add: suf_def Let_def)
  from assms(1) r have d: "distinct pre" "distinct suf" "set pre \<inter> set suf = {}"
    by auto
  consider (hit) "x \<in> set suf" | (old) "x \<notin> set suf" "x \<in> set pre" | (new) "x \<notin> set r"
    using r by auto
  then show ?thesis
  proof cases
    case hit
    with d have "x \<notin> set pre" by auto
    then have eq: "removeAll x r @ [x] = pre @ (remove1 x suf @ [x])"
      using d hit by (simp add: r distinct_remove1_removeAll)
    have "length (remove1 x suf @ [x]) = length suf"
      using hit length_pos_if_in_set [of x suf] by (simp add: length_remove1)
    then have "length (removeAll x r @ [x]) = length pre + length suf"
      unfolding eq by simp
    with len_suf len_pre len_r have "length (removeAll x r @ [x]) - c = length pre"
      by arith
    then have "drop (length (removeAll x r @ [x]) - c) (removeAll x r @ [x]) = remove1 x suf @ [x]"
      unfolding eq by simp
    with hit show ?thesis
      unfolding rhs by simp
  next
    case old
    then have eq: "removeAll x r @ [x] = remove1 x pre @ suf @ [x]"
      using d by (simp add: r distinct_remove1_removeAll)
    from old(2) have "0 < length pre"
      by (rule length_pos_if_in_set)
    with len_pre have big: "c < length r"
      by arith
    then have ls: "length suf = c"
      using len_suf by simp
    have lp: "length (remove1 x pre) = length pre - 1"
      using old by (simp add: length_remove1)
    have "length (removeAll x r @ [x]) = length (remove1 x pre) + length suf + 1"
      unfolding eq by simp
    with ls have "length (removeAll x r @ [x]) - c = length (remove1 x pre) + 1"
      by arith
    then have "drop (length (removeAll x r @ [x]) - c) (removeAll x r @ [x]) = drop 1 (suf @ [x])"
      unfolding eq by simp
    also have "\<dots> = tl suf @ [x]"
      using ls assms(2) by (cases suf) auto
    finally show ?thesis
      unfolding rhs using old(1) ls by simp
  next
    case new
    then have eq: "removeAll x r @ [x] = pre @ suf @ [x]"
      by (simp add: r)
    from new r have fresh: "x \<notin> set suf"
      by auto
    show ?thesis
    proof (cases "c \<le> length r")
      case True
      then have ls: "length suf = c"
        using len_suf by simp
      have "length (removeAll x r @ [x]) = length pre + length suf + 1"
        unfolding eq by simp
      with ls have "length (removeAll x r @ [x]) - c = length pre + 1"
        by arith
      then have "drop (length (removeAll x r @ [x]) - c) (removeAll x r @ [x]) = drop 1 (suf @ [x])"
        unfolding eq by simp
      also have "\<dots> = tl suf @ [x]"
        using ls assms(2) by (cases suf) auto
      finally show ?thesis
        unfolding rhs using fresh ls by simp
    next
      case False
      then have ls: "length suf < c" and pre: "pre = []"
        using len_suf len_pre by auto
      have "length (removeAll x r @ [x]) = length suf + 1"
        unfolding eq using pre by simp
      with ls have "length (removeAll x r @ [x]) - c = 0"
        by arith
      then have "drop (length (removeAll x r @ [x]) - c) (removeAll x r @ [x]) = suf @ [x]"
        unfolding eq using pre by simp
      then show ?thesis
        unfolding rhs using fresh ls by simp
    qed
  qed
qed

lemma most_recent_snoc: "most_recent (h @ [x]) = lru_step (most_recent h) x"
  using last_part_step [of "remdups h" maxsize x]
  by (simp add: most_recent_def lru_step_def remdups_snoc maxsize_def Let_def)


lemma lookups_snoc:
  "lookups env BOOK_DIRS s (h @ [x]) = snd (load_book_cached env BOOK_DIRS (lookups env BOOK_DIRS s h) x)"
  by (induction h arbitrary: s) auto

lemma most_recent_distinct: "distinct (most_recent h)"
  by (simp add: most_recent_def)

lemma most_recent_length: "length (most_recent h) \<le> maxsize"
  by (simp add: most_recent_def)

lemma keys_lookups: "keys (lookups env BOOK_DIRS initial_state h) = most_recent h"
proof (induction h rule: rev_induct)
  case Nil
  show ?case
    by (simp add: keys_def initial_state_def most_recent_def)
next
  case (snoc x h)
  then have "distinct (keys (lookups env BOOK_DIRS initial_state h))"
    by (simp add: most_recent_distinct)
  then show ?case
    by (simp add: lookups_snoc keys_step snoc most_recent_snoc)
qed

lemma last_use_None: "last_use h k = None \<longleftrightarrow> k \<notin> set h"
  by (induction h) (auto split: option.splits)

lemma last_use_in: "k \<in> set h \<Longrightarrow> \<exists>i. last_use h k = Some i"
  using last_use_None [of h k] by (cases "last_use h k") auto

lemma used_before_Cons:
  assumes "a \<in> set h" and "b \<in> set h"
  shows "used_before (x # h) a b = used_before h a b"
proof -
  from assms obtain i j where "last_use h a = Some i" "last_use h b = Some j"
    by (blast dest: last_use_in)
  then show ?thesis
    by (simp add: used_before_def)
qed

lemma used_before_fresh:
  assumes "x \<notin> set h" and "b \<in> set h"
  shows "used_before (x # h) x b"
proof -
  from assms(2) obtain j where "last_use h b = Some j"
    by (blast dest: last_use_in)
  moreover from assms(1) have "last_use h x = None"
    by (simp add: last_use_None)
  ultimately show ?thesis
    by (simp add: used_before_def)
qed

lemma remdups_by_last_use: "sorted_wrt (used_before h) (remdups h)"
proof (induction h)
  case Nil
  show ?case by simp
next
  case (Cons x h)
  have "sorted_wrt (used_before (x # h)) (remdups h)"
    using Cons by (auto simp: sorted_wrt_iff_nth_less used_before_Cons nth_mem [THEN subsetD [OF eq_refl [OF set_remdups]]])
  then show ?case
    by (auto simp: used_before_fresh)
qed


subsection \<open>One lookup\<close>

lemma load_book_cached_hit:
  assumes "map_of (entries (cache s)) x = Some v"
  shows "load_book_cached env BOOK_DIRS s x =
     (Inr v, s\<lparr>cache := (cache s)\<lparr>entries := remove1 (x, v) (entries (cache s)) @ [(x, v)],
                                    hits := hits (cache s) + 1\<rparr>\<rparr>)"
  using assms by (simp add: load_book_cached_def Let_def)

lemma load_book_cached_miss:
  assumes "map_of (entries (cache s)) x = None"
    and "load_book env BOOK_DIRS x = Inr (v, printed)"
  shows "load_book_cached env BOOK_DIRS s x =
     (Inr v, s\<lparr>cache := (cache s)\<lparr>entries :=
                                      (if length (entries (cache s)) \<ge> maxsize
                                       then tl (entries (cache s)) else entries (cache s))
                                      @ [(x, v)],
                                    misses := misses (cache s) + 1\<rparr>,
               stdout := stdout s @ printed\<rparr>)"
  using assms by (simp add: load_book_cached_def Let_def)

lemma lookup_again:
  assumes "entries (cache s) = es @ [(x, v)]" and "x \<notin> fst ` set es"
  shows "load_book_cached env BOOK_DIRS s x =
           (Inr v, s\<lparr>cache := (cache s)\<lparr>hits := hits (cache s) + 1\<rparr>\<rparr>)"
proof -
  from assms(2) have "map_of es x = None"
    by (simp add: map_of_eq_None_iff)
  with assms(1) have found: "map_of (entries (cache s)) x = Some v"
    by (simp add: map_add_def)
  from assms(2) have "(x, v) \<notin> set es"
    by (auto intro: rev_image_eqI)
  then have "remove1 (x, v) (entries (cache s)) @ [(x, v)] = entries (cache s)"
    by (simp add: assms(1) remove1_append)
  with load_book_cached_hit [OF found] show ?thesis
    by simp
qed

lemma first_lookup:
  assumes "distinct (keys s)"
  shows "\<exists>v es. fst (load_book_cached env BOOK_DIRS s x) = Inr v \<and>
           entries (cache (snd (load_book_cached env BOOK_DIRS s x))) = es @ [(x, v)] \<and>
           x \<notin> fst ` set es \<and>
           misses (cache (snd (load_book_cached env BOOK_DIRS s x))) =
             misses (cache s) + (if x \<in> set (keys s) then 0 else 1)"
proof (cases "map_of (entries (cache s)) x")
  case None
  then have fresh: "x \<notin> fst ` set (entries (cache s))"
    by (simp add: map_of_eq_None_iff)
  then have "x \<notin> fst ` set (tl (entries (cache s)))"
    by (cases "entries (cache s)") auto
  moreover obtain v printed where "load_book env BOOK_DIRS x = Inr (v, printed)"
    using load_book_returns by blast
  ultimately show ?thesis
    using fresh by (simp add: load_book_cached_miss [OF None] keys_def)
next
  case (Some v)
  then have mem: "(x, v) \<in> set (entries (cache s))"
    by (rule map_of_SomeD)
  then have key: "x \<in> set (keys s)"
    by (auto simp: keys_def intro: rev_image_eqI)
  have "map fst (remove1 (x, v) (entries (cache s))) = remove1 x (keys s)"
    using assms Some by (simp add: keys_def map_of_remove1_keys)
  with assms have "x \<notin> set (map fst (remove1 (x, v) (entries (cache s))))"
    by simp
  then have "x \<notin> fst ` set (remove1 (x, v) (entries (cache s)))"
    by simp
  with key show ?thesis
    by (simp add: load_book_cached_hit [OF Some])
qed

lemma lookups_invariant:
  "distinct (keys (lookups env BOOK_DIRS initial_state h)) \<and>
   length (entries (cache (lookups env BOOK_DIRS initial_state h))) \<le> maxsize"
  using most_recent_distinct [of h] most_recent_length [of h]
    keys_lookups [of env BOOK_DIRS h]
  by (metis keys_def length_map)

subsection \<open>Capacity and eviction\<close>

text \<open>
  C2. After any sequence \<open>h\<close> of lookups from the empty cache, the cache holds at most 10
  entries. When it holds 10 and the next lookup is of an identifier \<open>x\<close> that is not among
  them, the lookup drops the first entry and appends the one for \<open>x\<close>, all others staying
  as they are; and the dropped entry is the least recently used: its last use in \<open>h\<close> is
  earlier than the last use of each of the other nine. Every lookup in \<open>h\<close> counts as a
  use, a hit as well as a miss that inserts.
\<close>

theorem lru_capacity_and_eviction:
  "length (entries (cache (lookups env BOOK_DIRS initial_state h))) \<le> 10 \<and>
   (length (keys (lookups env BOOK_DIRS initial_state h)) = 10 \<and>
    x \<notin> set (keys (lookups env BOOK_DIRS initial_state h)) \<longrightarrow>
      (\<exists>v. entries (cache (lookups env BOOK_DIRS initial_state (h @ [x]))) =
             tl (entries (cache (lookups env BOOK_DIRS initial_state h))) @ [(x, v)]) \<and>
      keys (lookups env BOOK_DIRS initial_state (h @ [x])) =
        tl (keys (lookups env BOOK_DIRS initial_state h)) @ [x] \<and>
      (\<forall>k \<in> set (tl (keys (lookups env BOOK_DIRS initial_state h))).
         used_before h (hd (keys (lookups env BOOK_DIRS initial_state h))) k))"
proof (intro conjI impI)
  let ?s = "lookups env BOOK_DIRS initial_state h"
  show "length (entries (cache ?s)) \<le> 10"
    using lookups_invariant [of env BOOK_DIRS h] by (simp add: maxsize_def)
  assume full: "length (keys ?s) = 10 \<and> x \<notin> set (keys ?s)"
  then have none: "map_of (entries (cache ?s)) x = None"
    by (simp add: keys_def map_of_eq_None_iff)
  obtain v printed where "load_book env BOOK_DIRS x = Inr (v, printed)"
    using load_book_returns by blast
  from load_book_cached_miss [OF none this] full
  have evict: "entries (cache (lookups env BOOK_DIRS initial_state (h @ [x]))) =
                 tl (entries (cache ?s)) @ [(x, v)]"
    by (simp add: lookups_snoc keys_def maxsize_def)
  then show "\<exists>v. entries (cache (lookups env BOOK_DIRS initial_state (h @ [x]))) =
             tl (entries (cache ?s)) @ [(x, v)]" ..
  from evict show "keys (lookups env BOOK_DIRS initial_state (h @ [x])) = tl (keys ?s) @ [x]"
    by (simp add: keys_def map_tl)
  have "sorted_wrt (used_before h) (keys ?s)"
    by (simp add: keys_lookups most_recent_def sorted_wrt_drop remdups_by_last_use)
  moreover from full have "keys ?s = hd (keys ?s) # tl (keys ?s)"
    by (cases "keys ?s") auto
  ultimately have "sorted_wrt (used_before h) (hd (keys ?s) # tl (keys ?s))"
    by simp
  then show "\<forall>k \<in> set (tl (keys ?s)). used_before h (hd (keys ?s)) k"
    by simp
qed

text \<open>
  After \<^verbatim>\<open>a\<close> to \<^verbatim>\<open>j\<close> and a second lookup of \<^verbatim>\<open>a\<close>, the lookup of \<^verbatim>\<open>k\<close> evicts
  \<^verbatim>\<open>b\<close>, not \<^verbatim>\<open>a\<close>.
\<close>

lemma example_history_keys:
  "keys (lookups empty_env [''/lib''] initial_state example_history) =
     [''b'', ''c'', ''d'', ''e'', ''f'', ''g'', ''h'', ''i'', ''j'', ''a'']"
  by (simp only: keys_lookups) (simp add: most_recent_def example_history_def maxsize_def)

theorem lru_eviction_witness:
  "length (keys (lookups empty_env [''/lib''] initial_state example_history)) = 10 \<and>
   ''k'' \<notin> set (keys (lookups empty_env [''/lib''] initial_state example_history)) \<and>
   hd (keys (lookups empty_env [''/lib''] initial_state example_history)) = ''b'' \<and>
   keys (lookups empty_env [''/lib''] initial_state (example_history @ [''k''])) =
     [''c'', ''d'', ''e'', ''f'', ''g'', ''h'', ''i'', ''j'', ''a'', ''k''] \<and>
   used_before example_history ''b'' ''a''"
  using lru_capacity_and_eviction [of empty_env "[''/lib'']" example_history "''k''"]
  by (simp add: example_history_keys)


subsection \<open>The example library, evaluated\<close>

lemma example_env_exists:
  "path_exists example_env p \<longleftrightarrow>
     p \<in> set [''/lib'', ''/lib/bookA_data'', ''/lib/bookA_data/book.pkl'',
              ''/lib/bookA_data/images'', ''/lib/bookA_data/images/..'',
              ''/lib/bookA_data/images/cover.png'',
              ''/lib/broken_data'', ''/lib/broken_data/book.pkl'',
              ''/more'', ''/more/bookA_data'', ''/more/bookA_data/book.pkl'',
              ''/more/bookB_data'', ''/more/bookB_data/book.pkl'',
              ''/more/vol:2_data'', ''/more/vol:2_data/book.pkl'']"
  by (simp add: example_env_def)

lemma example_env_unpickle:
  "unpickle example_env p =
     (if p = ''/lib/bookA_data/book.pkl'' \<or> p = ''/more/bookA_data/book.pkl''
         \<or> p = ''/more/bookB_data/book.pkl'' \<or> p = ''/more/vol:2_data/book.pkl''
      then Inr example_book else Inl ''invalid load key'')"
  by (simp add: example_env_def)

lemma resolve_broken:
  "resolve_book_path example_env [''/lib''] ''0:broken_data'' =
     Inr (Some ''/lib/broken_data/book.pkl'', Some ''/lib/broken_data'')"
  using resolve_scoped [where idx_s = "''0''" and i = 0 and BOOK_DIRS = "[''/lib'']"
      and env = example_env and folder = "''broken_data''"]
  by (simp add: py_int_0 snapshot_path_def folder_path_def join_def join_step_def sep_def)

lemma resolve_bookA:
  "resolve_book_path example_env [''/lib''] ''0:bookA_data'' =
     Inr (Some ''/lib/bookA_data/book.pkl'', Some ''/lib/bookA_data'')"
  using resolve_scoped [where idx_s = "''0''" and i = 0 and BOOK_DIRS = "[''/lib'']"
      and env = example_env and folder = "''bookA_data''"]
  by (simp add: py_int_0 snapshot_path_def folder_path_def join_def join_step_def sep_def)

lemma load_broken:
  "load_book example_env [''/lib''] ''0:broken_data'' =
     Inr (None, [''Error loading book 0:broken_data: invalid load key''])"
  by (simp add: load_book_def resolve_broken example_env_exists example_env_unpickle)

lemma load_bookA:
  "load_book example_env [''/lib''] ''0:bookA_data'' = Inr (Some example_book, [])"
  by (simp add: load_book_def resolve_bookA example_env_exists example_env_unpickle)

lemma empty_env_exists: "\<not> path_exists empty_env p"
  by (simp add: empty_env_def)

lemma resolve_unknown:
  "resolve_book_path empty_env [''/lib''] ''0:broken_data'' =
     Inr (Some ''/lib/broken_data/book.pkl'', Some ''/lib/broken_data'')"
  using resolve_scoped [where idx_s = "''0''" and i = 0 and BOOK_DIRS = "[''/lib'']"
      and env = empty_env and folder = "''broken_data''"]
  by (simp add: py_int_0 snapshot_path_def folder_path_def join_def join_step_def sep_def)

lemma load_cached_bookA:
  "fst (load_book_cached example_env [''/lib''] initial_state ''0:bookA_data'') =
     Inr (Some example_book)"
  by (simp add: load_book_cached_def load_bookA initial_state_def Let_def)

subsection \<open>Looking up the same identifier twice\<close>

text \<open>
  C3. In any state that lookups from the empty cache lead to, two lookups of the same
  identifier in succession run the body of \<open>load_book_cached\<close> (the resolver, the
  existence check and the deserialisation: the one read of the disk) at most once. The
  second lookup is a hit: it returns the value of the first, a book or \<open>None\<close> alike,
  whatever the disk holds by then (\<open>env'\<close> is any environment), counts no miss, prints
  nothing and leaves the entries as they are. The two lookups together count exactly one
  miss when the identifier was not cached before them, and none when it was.
\<close>

theorem repeated_lookup_hits_cache:
  "(let s = lookups env0 BOOK_DIRS initial_state h;
        (r1, s1) = load_book_cached env BOOK_DIRS s x;
        (r2, s2) = load_book_cached env' BOOK_DIRS s1 x
    in r2 = r1 \<and> (\<exists>v. r1 = Inr v) \<and>
       entries (cache s2) = entries (cache s1) \<and>
       stdout s2 = stdout s1 \<and>
       misses (cache s2) = misses (cache s1) \<and>
       hits (cache s2) = hits (cache s1) + 1 \<and>
       misses (cache s2) = misses (cache s) + (if x \<in> set (keys s) then 0 else 1))"
proof -
  let ?s = "lookups env0 BOOK_DIRS initial_state h"
  have "distinct (keys ?s)"
    using lookups_invariant by blast
  from first_lookup [OF this, of env BOOK_DIRS x]
  obtain v es where first: "fst (load_book_cached env BOOK_DIRS ?s x) = Inr v"
    and es: "entries (cache (snd (load_book_cached env BOOK_DIRS ?s x))) = es @ [(x, v)]"
    and fresh: "x \<notin> fst ` set es"
    and count: "misses (cache (snd (load_book_cached env BOOK_DIRS ?s x))) =
                  misses (cache ?s) + (if x \<in> set (keys ?s) then 0 else 1)"
    by blast
  from lookup_again [OF es fresh, of env' BOOK_DIRS] first count show ?thesis
    by (simp add: Let_def case_prod_beta)
qed

text \<open>
  A negative result: the snapshot of \<^verbatim>\<open>0:broken_data\<close> fails to load, once; the second
  lookup answers from the cache, on a disk that holds nothing.
\<close>

theorem repeated_lookup_witness:
  "load_book_cached example_env [''/lib''] initial_state ''0:broken_data'' =
     (Inr None, \<lparr>cache = \<lparr>entries = [(''0:broken_data'', None)], hits = 0, misses = 1\<rparr>,
                 stdout = [''Error loading book 0:broken_data: invalid load key'']\<rparr>) \<and>
   load_book_cached empty_env [''/lib'']
      \<lparr>cache = \<lparr>entries = [(''0:broken_data'', None)], hits = 0, misses = 1\<rparr>,
       stdout = [''Error loading book 0:broken_data: invalid load key'']\<rparr> ''0:broken_data'' =
     (Inr None, \<lparr>cache = \<lparr>entries = [(''0:broken_data'', None)], hits = 1, misses = 1\<rparr>,
                 stdout = [''Error loading book 0:broken_data: invalid load key'']\<rparr>)"
  using repeated_lookup_hits_cache [of example_env "[''/lib'']" "[]" example_env "''0:broken_data''" empty_env]
  by (simp add: load_book_cached_def load_broken initial_state_def Let_def maxsize_def)

subsection \<open>Load failures\<close>

lemma join_step_nonempty: "b \<noteq> [] \<Longrightarrow> join_step path b \<noteq> []"
  by (simp add: join_step_def)

lemma snapshot_path_nonempty: "snapshot_path root folder \<noteq> []"
  by (simp add: snapshot_path_def join_def join_step_nonempty)

lemma search_dirs_path: "search_dirs ex ds b = (Some p, f) \<Longrightarrow> p \<noteq> []"
  using snapshot_path_nonempty
  by (induction ds) (auto simp: Let_def snapshot_path_def split: if_splits)

lemma resolved_path_nonempty:
  assumes "resolve_book_path env BOOK_DIRS book_id = Inr (Some p, f)"
  shows "p \<noteq> []"
proof (cases "valid_scope (python env) BOOK_DIRS book_id")
  case True
  with assms show ?thesis
    using snapshot_path_nonempty
    by (auto simp: resolve_book_path_def valid_scope_def explicit_index_def index_prefix_def
        split_once_colon Let_def snapshot_path_def split: sum.splits)
next
  case False
  with assms show ?thesis
    by (auto simp: resolve_fallback dest: search_dirs_path)
qed

lemma read_chapter_absent:
  "fst (load_book_cached env BOOK_DIRS s book_id) = Inr None \<Longrightarrow>
   fst (read_chapter env BOOK_DIRS s request book_id i) = Inl (HTTPException 404 ''Book not found'')"
  by (cases "load_book_cached env BOOK_DIRS s book_id") (simp add: read_chapter_def)

lemma load_book_unresolved:
  "resolve_book_path env BOOK_DIRS book_id = Inr (None, f) \<Longrightarrow>
   load_book env BOOK_DIRS book_id = Inr (None, [])"
  by (simp add: load_book_def)

lemma load_book_missing:
  "resolve_book_path env BOOK_DIRS book_id = Inr (Some p, f) \<Longrightarrow> \<not> path_exists env p \<Longrightarrow>
   load_book env BOOK_DIRS book_id = Inr (None, [])"
  by (simp add: load_book_def)

lemma load_book_corrupt:
  assumes "resolve_book_path env BOOK_DIRS book_id = Inr (Some p, f)"
    and "path_exists env p" and "unpickle env p = Inl e"
  shows "load_book env BOOK_DIRS book_id =
           Inr (None, [''Error loading book '' @ book_id @ '': '' @ e])"
  using assms resolved_path_nonempty [OF assms(1)] by (simp add: load_book_def)

text \<open>
  C9. When the identifier is not cached, its resolved snapshot path exists and
  deserialising it raises an exception with message \<open>e\<close>, \<open>load_book_cached\<close> returns
  \<open>None\<close> as a value, prints the failure and caches \<open>None\<close> for the identifier. Nothing is
  raised: the chapter endpoint answers 404 "Book not found", as it does for an identifier
  that resolves to nothing and for one whose snapshot path does not exist.
\<close>

theorem load_failure_is_absence:
  assumes "map_of (entries (cache s)) book_id = None"
    and "resolve_book_path env BOOK_DIRS book_id = Inr (Some p, folder)"
    and "path_exists env p"
    and "unpickle env p = Inl e"
  shows "load_book_cached env BOOK_DIRS s book_id =
           (Inr None,
            s\<lparr>cache := (cache s)\<lparr>entries :=
                                    (if length (entries (cache s)) \<ge> maxsize
                                     then tl (entries (cache s)) else entries (cache s))
                                    @ [(book_id, None)],
                                  misses := misses (cache s) + 1\<rparr>,
              stdout := stdout s @ [''Error loading book '' @ book_id @ '': '' @ e]\<rparr>) \<and>
         fst (read_chapter env BOOK_DIRS s request book_id i) =
           Inl (HTTPException 404 ''Book not found'') \<and>
         (resolve_book_path env0 dirs0 book_id = Inr (None, None) \<longrightarrow>
            fst (load_book_cached env0 dirs0 s book_id) = Inr None \<and>
            fst (read_chapter env0 dirs0 s request book_id i) =
              Inl (HTTPException 404 ''Book not found'')) \<and>
         (resolve_book_path env1 dirs1 book_id = Inr (Some q, folder1) \<and> \<not> path_exists env1 q \<longrightarrow>
            fst (load_book_cached env1 dirs1 s book_id) = Inr None \<and>
            fst (read_chapter env1 dirs1 s request book_id i) =
              Inl (HTTPException 404 ''Book not found''))"
proof (intro conjI impI)
  from load_book_cached_miss [OF assms(1) load_book_corrupt [OF assms(2-4)]]
  show first: "load_book_cached env BOOK_DIRS s book_id =
           (Inr None,
            s\<lparr>cache := (cache s)\<lparr>entries :=
                                    (if length (entries (cache s)) \<ge> maxsize
                                     then tl (entries (cache s)) else entries (cache s))
                                    @ [(book_id, None)],
                                  misses := misses (cache s) + 1\<rparr>,
              stdout := stdout s @ [''Error loading book '' @ book_id @ '': '' @ e]\<rparr>)" .
  then have "fst (load_book_cached env BOOK_DIRS s book_id) = Inr None"
    by simp
  then show "fst (read_chapter env BOOK_DIRS s request book_id i) =
               Inl (HTTPException 404 ''Book not found'')"
    by (rule read_chapter_absent)
next
  assume "resolve_book_path env0 dirs0 book_id = Inr (None, None)"
  from load_book_cached_miss [OF assms(1) load_book_unresolved [OF this]]
  show unknown: "fst (load_book_cached env0 dirs0 s book_id) = Inr None"
    by simp
  then show "fst (read_chapter env0 dirs0 s request book_id i) =
               Inl (HTTPException 404 ''Book not found'')"
    by (rule read_chapter_absent)
next
  assume "resolve_book_path env1 dirs1 book_id = Inr (Some q, folder1) \<and> \<not> path_exists env1 q"
  then have "load_book env1 dirs1 book_id = Inr (None, [])"
    by (simp add: load_book_missing)
  from load_book_cached_miss [OF assms(1) this]
  show missing: "fst (load_book_cached env1 dirs1 s book_id) = Inr None"
    by simp
  then show "fst (read_chapter env1 dirs1 s request book_id i) =
               Inl (HTTPException 404 ''Book not found'')"
    by (rule read_chapter_absent)
qed

text \<open>
  \<^verbatim>\<open>0:broken_data\<close> in the example library, and the same identifier on a disk that holds
  nothing.
\<close>

theorem load_failure_witness:
  "load_book_cached example_env [''/lib''] initial_state ''0:broken_data'' =
     (Inr None, \<lparr>cache = \<lparr>entries = [(''0:broken_data'', None)], hits = 0, misses = 1\<rparr>,
                 stdout = [''Error loading book 0:broken_data: invalid load key'']\<rparr>) \<and>
   fst (read_chapter example_env [''/lib''] initial_state (Request ''/read/0:broken_data/0'')
          ''0:broken_data'' 0) = Inl (HTTPException 404 ''Book not found'') \<and>
   fst (read_chapter empty_env [''/lib''] initial_state (Request ''/read/0:broken_data/0'')
          ''0:broken_data'' 0) = Inl (HTTPException 404 ''Book not found'')"
  using load_failure_is_absence [where s = initial_state and book_id = "''0:broken_data''"
      and env = example_env and BOOK_DIRS = "[''/lib'']" and p = "''/lib/broken_data/book.pkl''"
      and folder = "Some ''/lib/broken_data''" and e = "''invalid load key''"
      and ?env0.0 = empty_env and ?dirs0.0 = "[]"
      and ?env1.0 = empty_env and ?dirs1.0 = "[''/lib'']" and q = "''/lib/broken_data/book.pkl''"
      and ?folder1.0 = "Some ''/lib/broken_data''"
      and request = "Request ''/read/0:broken_data/0''" and i = 0]
  by (simp add: resolve_broken resolve_unknown initial_state_def example_env_exists
      example_env_unpickle maxsize_def empty_env_exists)

section \<open>Chapter navigation\<close>

lemma read_chapter_present:
  assumes "fst (load_book_cached env BOOK_DIRS s book_id) = Inr (Some book)"
  shows "fst (read_chapter env BOOK_DIRS s request book_id i) =
     (if i < 0 \<or> int (length (spine book)) \<le> i
      then Inl (HTTPException 404 ''Chapter not found'')
      else Inr (Reader \<lparr>ctx_request = request, ctx_book = book,
                         ctx_current_chapter = spine book ! nat i,
                         ctx_chapter_index = i, ctx_book_id = book_id,
                         ctx_prev_idx = (if i > 0 then Some (i - 1) else None),
                         ctx_next_idx = (if i < int (length (spine book)) - 1
                                         then Some (i + 1) else None)\<rparr>))"
  using assms
  by (cases "load_book_cached env BOOK_DIRS s book_id") (simp add: read_chapter_def Let_def)

text \<open>
  C7. When the book is absent, \<open>read_chapter\<close> raises 404 "Book not found". For a loaded
  book with \<open>N\<close> chapters it raises 404 "Chapter not found" for an index outside
  \<open>[0, N)\<close>; for an index inside it renders that chapter, with the previous index
  \<open>i - 1\<close> unless \<open>i = 0\<close>, where it is \<open>None\<close>, and the next index \<open>i + 1\<close> unless
  \<open>i = N - 1\<close>, where it is \<open>None\<close>.
\<close>

theorem chapter_navigation_bounds:
  "(fst (load_book_cached env BOOK_DIRS s book_id) = Inr None \<longrightarrow>
      fst (read_chapter env BOOK_DIRS s request book_id i) =
        Inl (HTTPException 404 ''Book not found'')) \<and>
   (fst (load_book_cached env BOOK_DIRS s book_id) = Inr (Some book) \<longrightarrow>
      (i < 0 \<or> int (length (spine book)) \<le> i \<longrightarrow>
         fst (read_chapter env BOOK_DIRS s request book_id i) =
           Inl (HTTPException 404 ''Chapter not found'')) \<and>
      (0 \<le> i \<and> i < int (length (spine book)) \<longrightarrow>
         (\<exists>ctx. fst (read_chapter env BOOK_DIRS s request book_id i) = Inr (Reader ctx) \<and>
            ctx_book ctx = book \<and> ctx_book_id ctx = book_id \<and> ctx_chapter_index ctx = i \<and>
            ctx_current_chapter ctx = spine book ! nat i \<and>
            ctx_prev_idx ctx = (if i = 0 then None else Some (i - 1)) \<and>
            ctx_next_idx ctx =
              (if i = int (length (spine book)) - 1 then None else Some (i + 1)))))"
proof (intro conjI impI)
  assume "fst (load_book_cached env BOOK_DIRS s book_id) = Inr None"
  then show "fst (read_chapter env BOOK_DIRS s request book_id i) =
               Inl (HTTPException 404 ''Book not found'')"
    by (rule read_chapter_absent)
next
  assume "fst (load_book_cached env BOOK_DIRS s book_id) = Inr (Some book)"
    and "i < 0 \<or> int (length (spine book)) \<le> i"
  then show "fst (read_chapter env BOOK_DIRS s request book_id i) =
               Inl (HTTPException 404 ''Chapter not found'')"
    by (simp add: read_chapter_present)
next
  assume loaded: "fst (load_book_cached env BOOK_DIRS s book_id) = Inr (Some book)"
    and inside: "0 \<le> i \<and> i < int (length (spine book))"
  from inside have "\<not> (i < 0 \<or> int (length (spine book)) \<le> i)"
    by arith
  moreover from inside have "(i > 0) = (i \<noteq> 0)"
    by arith
  moreover from inside have "(i < int (length (spine book)) - 1) = (i \<noteq> int (length (spine book)) - 1)"
    by arith
  ultimately show "\<exists>ctx. fst (read_chapter env BOOK_DIRS s request book_id i) = Inr (Reader ctx) \<and>
            ctx_book ctx = book \<and> ctx_book_id ctx = book_id \<and> ctx_chapter_index ctx = i \<and>
            ctx_current_chapter ctx = spine book ! nat i \<and>
            ctx_prev_idx ctx = (if i = 0 then None else Some (i - 1)) \<and>
            ctx_next_idx ctx =
              (if i = int (length (spine book)) - 1 then None else Some (i + 1))"
    by (simp add: read_chapter_present [OF loaded])
qed

text \<open>
  The example of the specification: three chapters under \<^verbatim>\<open>/lib\<close>; chapter 2 has no
  next chapter, and chapter 5 is not found.
\<close>

theorem chapter_navigation_witness:
  "(\<exists>ctx. fst (read_chapter example_env [''/lib''] initial_state (Request ''/read/0:bookA_data/2'')
               ''0:bookA_data'' 2) = Inr (Reader ctx) \<and>
          ctx_current_chapter ctx = example_chapter 2 \<and>
          ctx_prev_idx ctx = Some 1 \<and> ctx_next_idx ctx = None) \<and>
   fst (read_chapter example_env [''/lib''] initial_state (Request ''/read/0:bookA_data/5'')
          ''0:bookA_data'' 5) = Inl (HTTPException 404 ''Chapter not found'')"
  using chapter_navigation_bounds [of example_env "[''/lib'']" initial_state "''0:bookA_data''"
          "Request ''/read/0:bookA_data/2''" 2 example_book]
        chapter_navigation_bounds [of example_env "[''/lib'']" initial_state "''0:bookA_data''"
          "Request ''/read/0:bookA_data/5''" 5 example_book]
  by (simp add: load_cached_bookA) (auto simp: example_book_def)


subsection \<open>The chapter redirect\<close>

text \<open>
  The call in \<open>redirect_to_first_chapter\<close> names \<^verbatim>\<open>book_id\<close> and \<^verbatim>\<open>chapter_index\<close>
  only, and \<open>read_chapter\<close> requires \<^verbatim>\<open>request\<close> as well: the call raises
  \<^verbatim>\<open>TypeError\<close> for every identifier, and the cache is not consulted.
\<close>

lemma redirect_always_raises:
  "redirect_to_first_chapter env BOOK_DIRS s book_id =
     (Inl (TypeError ''missing required argument: request''), s)"
  by (simp add: redirect_to_first_chapter_def call_read_chapter_def)

text \<open>
  C1. The chapter redirect is to give what chapter navigation gives for index 0. In the
  example library the two differ: for \<^verbatim>\<open>0:bookA_data\<close>, \<open>read_chapter\<close> with index 0
  renders the first chapter, and \<open>redirect_to_first_chapter\<close> raises \<^verbatim>\<open>TypeError\<close>.
\<close>

theorem redirect_raises_type_error:
  "redirect_to_first_chapter example_env [''/lib''] initial_state ''0:bookA_data'' =
     (Inl (TypeError ''missing required argument: request''), initial_state) \<and>
   fst (read_chapter example_env [''/lib''] initial_state (Request ''/read/0:bookA_data'')
          ''0:bookA_data'' 0) =
     Inr (Reader \<lparr>ctx_request = Request ''/read/0:bookA_data'', ctx_book = example_book,
                   ctx_current_chapter = example_chapter 0, ctx_chapter_index = 0,
                   ctx_book_id = ''0:bookA_data'', ctx_prev_idx = None,
                   ctx_next_idx = Some 1\<rparr>)"
  by (simp add: redirect_always_raises read_chapter_present [OF load_cached_bookA])
     (simp add: example_book_def)

section \<open>The library listing\<close>

text \<open>
  No lookup raises, so the loop over the directory listing always comes to its end with
  a list of books.
\<close>

lemma load_book_cached_returns:
  "\<exists>v s'. load_book_cached env BOOK_DIRS s x = (Inr v, s')"
proof (cases "map_of (entries (cache s)) x")
  case None
  obtain v printed where "load_book env BOOK_DIRS x = Inr (v, printed)"
    using load_book_returns by blast
  from load_book_cached_miss [OF None this] show ?thesis
    by blast
next
  case (Some v)
  from load_book_cached_hit [OF Some] show ?thesis
    by blast
qed

lemma list_books_returns:
  "\<exists>books' s'. list_books env BOOK_DIRS target_idx target_dir s items books = (Inr books', s')"
proof (induction items arbitrary: s books)
  case Nil
  show ?case by simp
next
  case (Cons item items)
  obtain v s' where "load_book_cached env BOOK_DIRS s (str_int target_idx @ '':'' @ item) = (Inr v, s')"
    using load_book_cached_returns by blast
  then show ?case
    using Cons by (cases v) (simp_all add: Let_def)
qed

lemma book_dirs_nonempty: "book_dirs_of_argv argv \<noteq> []"
  by (cases argv) (auto simp: book_dirs_of_argv_def)


text \<open>
  C10. With at least one root configured (the main block always configures one), a
  \<^verbatim>\<open>dir_index\<close> that is negative or not below the number of roots gives the very result
  and state that \<^verbatim>\<open>dir_index=0\<close> gives: the books of the first root. Nothing is raised
  on account of the index: the result is a listing whenever the first root does not exist
  or \<^verbatim>\<open>os.listdir\<close> can read it.
\<close>

theorem library_view_clamps_index:
  assumes "BOOK_DIRS \<noteq> []"
    and "i < 0 \<or> int (length BOOK_DIRS) \<le> i"
  shows "library_view env BOOK_DIRS s request (Some i) =
           library_view env BOOK_DIRS s request (Some 0) \<and>
         (\<not> path_exists env (BOOK_DIRS ! 0) \<or> (\<exists>items. listdir env (BOOK_DIRS ! 0) = Inr items) \<longrightarrow>
            (\<exists>books s'. library_view env BOOK_DIRS s request (Some i) =
                           (Inr (LibraryBooks request books), s')))"
proof (intro conjI impI)
  from assms show same: "library_view env BOOK_DIRS s request (Some i) =
                           library_view env BOOK_DIRS s request (Some 0)"
    by (auto simp: library_view_def)
  assume ok: "\<not> path_exists env (BOOK_DIRS ! 0) \<or> (\<exists>items. listdir env (BOOK_DIRS ! 0) = Inr items)"
  show "\<exists>books s'. library_view env BOOK_DIRS s request (Some i) =
                      (Inr (LibraryBooks request books), s')"
  proof (cases "path_exists env (BOOK_DIRS ! 0)")
    case False
    with assms(1) show ?thesis
      unfolding same by (simp add: library_view_def)
  next
    case True
    with ok obtain items where items: "listdir env (BOOK_DIRS ! 0) = Inr items"
      by blast
    obtain books s' where "list_books env BOOK_DIRS 0 (BOOK_DIRS ! 0) s items [] = (Inr books, s')"
      using list_books_returns by blast
    with assms(1) True items show ?thesis
      unfolding same by (simp add: library_view_def)
  qed
qed


lemma example_env_isdir:
  "isdir example_env p \<longleftrightarrow>
     p \<in> set [''/lib'', ''/lib/bookA_data'', ''/lib/bookA_data/images'',
              ''/lib/bookA_data/images/..'', ''/lib/broken_data'',
              ''/more'', ''/more/bookA_data'', ''/more/bookB_data'', ''/more/vol:2_data'']"
  by (simp add: example_env_def)

lemma example_env_listdir:
  "listdir example_env p =
     (if p = ''/lib'' then Inr [''bookA_data'', ''broken_data'', ''notes.txt'']
      else if p = ''/more'' then Inr [''bookA_data'', ''bookB_data'', ''vol:2_data'']
      else Inl (OSError ''not a directory''))"
  by (simp add: example_env_def)

lemma str_int_0: "str_int 0 = ''0''"
  by code_simp

lemma py_int_0_two_roots:
  "resolve_book_path env [''/lib'', ''/more''] (''0:'' @ folder) =
     Inr (Some (snapshot_path ''/lib'' folder), Some (folder_path ''/lib'' folder))"
  using resolve_scoped [where idx_s = "''0''" and i = 0 and BOOK_DIRS = "[''/lib'', ''/more'']"
      and env = env and folder = folder]
  by (simp add: py_int_0)

lemma library_first_root:
  "fst (library_view example_env [''/lib'', ''/more''] initial_state (Request ''/?dir_index=0'') (Some 0)) =
     Inr (LibraryBooks (Request ''/?dir_index=0'')
            [\<lparr>entry_id = ''0:bookA_data'', entry_title = ''Test Book'',
              entry_author = ''Me'', entry_chapters = 3\<rparr>])"
  using py_int_0_two_roots [of example_env "''bookA_data''"]
    py_int_0_two_roots [of example_env "''broken_data''"]
  by (simp add: library_view_def example_env_exists example_env_listdir example_env_isdir
      example_env_unpickle endswith_def join_def join_step_def sep_def str_int_0 Let_def
      load_book_cached_def load_book_def initial_state_def snapshot_path_def folder_path_def
      maxsize_def example_book_def)

text \<open>With two roots, \<^verbatim>\<open>dir_index=7\<close> and \<^verbatim>\<open>dir_index=-1\<close> list the first root.\<close>

theorem library_view_clamp_witness:
  "fst (library_view example_env [''/lib'', ''/more''] initial_state (Request ''/?dir_index=0'') (Some 7)) =
     Inr (LibraryBooks (Request ''/?dir_index=0'')
            [\<lparr>entry_id = ''0:bookA_data'', entry_title = ''Test Book'',
              entry_author = ''Me'', entry_chapters = 3\<rparr>]) \<and>
   fst (library_view example_env [''/lib'', ''/more''] initial_state (Request ''/?dir_index=0'') (Some (- 1))) =
     Inr (LibraryBooks (Request ''/?dir_index=0'')
            [\<lparr>entry_id = ''0:bookA_data'', entry_title = ''Test Book'',
              entry_author = ''Me'', entry_chapters = 3\<rparr>])"
  using library_view_clamps_index [of "[''/lib'', ''/more'']" 7 example_env initial_state
          "Request ''/?dir_index=0''"]
        library_view_clamps_index [of "[''/lib'', ''/more'']" "- 1" example_env initial_state
          "Request ''/?dir_index=0''"]
  by (simp add: library_first_root)

section \<open>Image retrieval\<close>

text \<open>
  What \<open>serve_image\<close> keeps of the image name has no separator; the example of the
  specification, \<^verbatim>\<open>../../etc/passwd\<close>, becomes \<^verbatim>\<open>passwd\<close> under the images folder.
\<close>

lemma basename_no_sep: "sep \<notin> set (basename p)"
proof -
  have "sep \<notin> set (takeWhile (\<lambda>x. x \<noteq> sep) (rev p))"
    by (auto dest: set_takeWhileD)
  then show ?thesis
    by (simp add: basename_def)
qed

lemma basename_passwd: "basename ''../../etc/passwd'' = ''passwd''"
  by (simp add: basename_def sep_def)

lemma image_path_passwd:
  "image_path ''/lib/bookA_data'' ''../../etc/passwd'' = ''/lib/bookA_data/images/passwd'' \<and>
   inside ''/lib/bookA_data/images'' (image_path ''/lib/bookA_data'' ''../../etc/passwd'')"
  by (simp add: image_path_def basename_passwd join_def join_step_def sep_def inside_def
      location_def Let_def)

text \<open>
  The path built for an image is the images folder, a separator and the last component
  of the name. It stays inside the images folder for every name whose last component is
  not \<^verbatim>\<open>..\<close>.
\<close>

lemma split_sep_nonempty: "split_sep p \<noteq> []"
  by (induction p) (auto simp: Let_def)

lemma split_sep_plain: "sep \<notin> set n \<Longrightarrow> split_sep n = [n]"
  by (induction n) (auto simp: Let_def)

lemma split_sep_append: "split_sep (a @ sep # b) = split_sep a @ split_sep b"
  using split_sep_nonempty by (induction a) (auto simp: Let_def)

lemma walk_append: "walk acc (xs @ ys) = walk (rev (walk acc xs)) ys"
  by (induction xs arbitrary: acc) auto

lemma location_child:
  assumes "sep \<notin> set n" and "n \<noteq> ''..''"
  shows "location (d @ sep # n) = (if n = [] \<or> n = ''.'' then location d else location d @ [n])"
  using assms by (simp add: location_def split_sep_append split_sep_plain walk_append)

lemma image_path_child:
  assumes "folder \<noteq> []"
  shows "image_path folder image_name = join folder [''images''] @ sep # basename image_name"
proof -
  have dir: "join folder [''images''] \<noteq> [] \<and> last (join folder [''images'']) \<noteq> sep"
    using assms by (simp add: join_def join_step_def sep_def)
  have "basename image_name = [] \<or> hd (basename image_name) \<noteq> sep"
    using basename_no_sep [of image_name] by (cases "basename image_name") auto
  with dir show ?thesis
    by (auto simp: image_path_def join_def join_step_def Let_def)
qed

lemma image_path_inside:
  assumes "folder \<noteq> []" and "basename image_name \<noteq> ''..''"
  shows "inside (join folder [''images'']) (image_path folder image_name)"
  using assms(2) basename_no_sep [of image_name]
  by (simp add: inside_def image_path_child [OF assms(1)] location_child)

text \<open>
  C8. The path built for an image is never to leave the images folder of the book. The
  name \<^verbatim>\<open>..\<close> is its own last component, so \<^verbatim>\<open>os.path.basename\<close> keeps it: for the
  book \<^verbatim>\<open>0:bookA_data\<close> the path built is \<^verbatim>\<open>/lib/bookA_data/images/..\<close>, which exists
  whenever the images folder does and leads to the book folder, outside the images
  folder; \<open>serve_image\<close> answers with that path.
\<close>

theorem image_path_escapes_by_dotdot:
  "serve_image example_env [''/lib''] ''0:bookA_data'' ''..'' =
     Inr (FileResponse ''/lib/bookA_data/images/..'') \<and>
   location ''/lib/bookA_data/images/..'' = [''lib'', ''bookA_data''] \<and>
   \<not> inside ''/lib/bookA_data/images'' ''/lib/bookA_data/images/..''"
  by (simp add: serve_image_def resolve_bookA image_path_def basename_def join_def
      join_step_def sep_def example_env_exists inside_def location_def Let_def)



end
